theory Spec2Isabelle
  imports Main "HOL-Library.Multiset"
begin

section \<open>Errors and basic data\<close>

text \<open>
  Go errors are values. The constructors follow the error values the sources build:
  \<^verbatim>\<open>httperrors.NewInvalidStatusError\<close>, \<^verbatim>\<open>httperrors.NewResourceNotFoundError\<close>,
  \<^verbatim>\<open>httperrors.NewNotEmptyError\<close>, \<^verbatim>\<open>sql.ErrNoRows\<close>, \<^verbatim>\<open>errors.Wrap\<close> (cause and message),
  the comparator's error of section 4.1 of the spec,
  and \<open>OtherError\<close> for any other error a collaborator hands back (a storage fault,
  a duplicate name, a failed task creation).
\<close>

datatype error =
    InvalidStatusError string
  | ResourceNotFoundError string
  | NotEmptyError string
  | ErrNoRows
  | OtherError string
  | ComparisonError string
  | Wrap error string

text \<open>\<^verbatim>\<open>api.CLOUD_PROVIDER_SYNC_STATUS_*\<close>: the sync status is a string column.\<close>

definition CLOUD_PROVIDER_SYNC_STATUS_IDLE :: string where
  "CLOUD_PROVIDER_SYNC_STATUS_IDLE = ''idle''"

definition CLOUD_PROVIDER_SYNC_STATUS_QUEUING :: string where
  "CLOUD_PROVIDER_SYNC_STATUS_QUEUING = ''queuing''"

definition CLOUD_PROVIDER_SYNC_STATUS_QUEUED :: string where
  "CLOUD_PROVIDER_SYNC_STATUS_QUEUED = ''queued''"

definition CLOUD_PROVIDER_SYNC_STATUS_SYNCING :: string where
  "CLOUD_PROVIDER_SYNC_STATUS_SYNCING = ''syncing''"

definition CLOUD_PROVIDER_SYNC_STATUS_ERROR :: string where
  "CLOUD_PROVIDER_SYNC_STATUS_ERROR = ''error''"

text \<open>
  The rows of the three syncable tables, with the columns the sync code reads and writes.
  Field names carry the table's prefix (\<open>cp\<close>, \<open>ca\<close>, \<open>cpr\<close>) because the Go structs
  share them (\<open>Id\<close>, \<open>Enabled\<close>, \<open>SyncStatus\<close>, \<open>LastSync\<close>, \<open>LastSyncEndAt\<close>).
  A \<^verbatim>\<open>time.Time\<close> is a number of ticks; the zero time \<^verbatim>\<open>time.Time{}\<close> is \<open>0\<close>.
\<close>

record SCloudprovider =
  cp_Id :: string
  cp_Enabled :: bool
  cp_SyncStatus :: string
  cp_LastSync :: nat
  cp_LastSyncEndAt :: nat
  cp_CloudaccountId :: string

record SCloudaccount =
  ca_Id :: string
  ca_Enabled :: bool
  ca_SyncStatus :: string
  ca_LastSync :: nat
  ca_LastSyncEndAt :: nat

record SCloudproviderregion =
  cpr_CloudproviderId :: string
  cpr_CloudregionId :: string
  cpr_Enabled :: bool
  cpr_SyncStatus :: string

text \<open>\<^verbatim>\<open>api.SyncRangeInput\<close>, embedded by \<^verbatim>\<open>SSyncRange\<close>.\<close>

record SSyncRange =
  Force :: bool
  FullSync :: bool
  DeepSync :: bool
  Region :: "string list"
  Zone :: "string list"
  Host :: "string list"
  Resources :: "string list"

section \<open>Deleting a cloudprovider\<close>

text \<open>
  \<^verbatim>\<open>SCloudprovider.ValidateDeleteCondition\<close>. The check of the embedded
  \<^verbatim>\<open>SEnabledStatusStandaloneResourceBase\<close> is the parameter \<open>base\<close>.
\<close>

definition SCloudprovider_ValidateDeleteCondition ::
  "(SCloudprovider \<Rightarrow> error option) \<Rightarrow> SCloudprovider \<Rightarrow> error option" where
  "SCloudprovider_ValidateDeleteCondition base self =
     (if cp_Enabled self then Some (InvalidStatusError ''provider is enabled'')
      else if cp_SyncStatus self \<noteq> CLOUD_PROVIDER_SYNC_STATUS_IDLE
        then Some (InvalidStatusError ''provider is not idle'')
      else base self)"

section \<open>The tables, the absent collaborators and the storage's answers\<close>

text \<open>The actions written to the operations log (\<^verbatim>\<open>db.ACT_*\<close>, \<^verbatim>\<open>logclient.ACT_CLOUD_SYNC\<close>).\<close>

datatype act =
    ACT_SYNCING_HOST
  | ACT_SYNC_HOST_START
  | ACT_SYNC_HOST_FAILED
  | ACT_SYNC_HOST_COMPLETE
  | ACT_CLOUD_SYNC

text \<open>
  A task row as \<^verbatim>\<open>taskman.TaskManager.NewTask\<close> creates it: the task's name, the id of
  the object it runs on, the \<^verbatim>\<open>sync_range\<close> parameter (absent when the caller passed a
  nil range) and the parent task's id.
\<close>

record task =
  task_name :: string
  task_obj :: string
  task_sync_range :: "SSyncRange option"
  task_parent :: string

record compute_db =
  cloudaccounts :: "SCloudaccount list"
  cloudproviders :: "SCloudprovider list"
  cloudproviderregions :: "SCloudproviderregion list"
  tasks :: "task list"
  opslog :: "(string \<times> act) list"

text \<open>
  What the functions below call and the sources do not hold: the clock, the storage's
  answer to \<^verbatim>\<open>db.Update\<close> on a cloudprovider row and to the count query of
  \<open>getSyncStatus2\<close> (\<open>None\<close>: no error), the task runtime's answers, and the methods of
  \<^verbatim>\<open>SSyncableBaseResource\<close>, \<^verbatim>\<open>SCloudproviderregion\<close> and \<^verbatim>\<open>SCloudaccount\<close>
  that the cloudprovider code calls. They are parameters of the model.
\<close>

record env =
  UtcNow :: nat
  db_Update_err :: "string \<Rightarrow> error option"
  CountWithError_err :: "error option"
  NewTask_err :: "error option"
  ScheduleRun_err :: "error option"
  CanSync :: "SCloudprovider \<Rightarrow> bool"
  cpr_markStartingSync :: "SSyncRange option \<Rightarrow> SCloudproviderregion \<Rightarrow> error + SCloudproviderregion"
  cpr_cancelStartingSync :: "SCloudproviderregion \<Rightarrow> error + SCloudproviderregion"
  ca_MarkSyncing :: "SCloudaccount \<Rightarrow> SCloudaccount"
  ca_MarkEndSyncWithLock :: "SCloudaccount \<Rightarrow> compute_db \<Rightarrow> error option \<times> compute_db"

text \<open>\<^verbatim>\<open>db.Update\<close> writes the changed object back to its row (the row with its id).\<close>

definition save_provider :: "SCloudprovider \<Rightarrow> compute_db \<Rightarrow> compute_db" where
  "save_provider p db =
     db\<lparr>cloudproviders := map (\<lambda>q. if cp_Id q = cp_Id p then p else q) (cloudproviders db)\<rparr>"

definition save_account :: "SCloudaccount \<Rightarrow> compute_db \<Rightarrow> compute_db" where
  "save_account a db =
     db\<lparr>cloudaccounts := map (\<lambda>b. if ca_Id b = ca_Id a then a else b) (cloudaccounts db)\<rparr>"

text \<open>
  \<^verbatim>\<open>SCloudprovider.GetCloudaccount\<close>: \<^verbatim>\<open>CloudaccountManager.FetchById\<close> on the
  provider's account id; a missing row is \<^verbatim>\<open>sql.ErrNoRows\<close>, wrapped.
\<close>

definition GetCloudaccount :: "SCloudprovider \<Rightarrow> compute_db \<Rightarrow> error + SCloudaccount" where
  "GetCloudaccount self db =
     (case find (\<lambda>a. ca_Id a = cp_CloudaccountId self) (cloudaccounts db) of
        None \<Rightarrow> Inl (Wrap ErrNoRows (''FetchById('' @ cp_CloudaccountId self @ '')''))
      | Some a \<Rightarrow> Inr a)"

text \<open>
  The loops \<^verbatim>\<open>for i := range cprs\<close> over the provider's region rows
  (\<^verbatim>\<open>GetCloudproviderRegions\<close>: the rows with the provider's id). Each selected row is
  handed to the region's method, which writes its row back; the first error ends the loop
  and leaves the rows after it as they were.
\<close>

fun for_each_cpr ::
  "(SCloudproviderregion \<Rightarrow> error + SCloudproviderregion) \<Rightarrow> (SCloudproviderregion \<Rightarrow> bool) \<Rightarrow>
   SCloudproviderregion list \<Rightarrow> error option \<times> SCloudproviderregion list" where
  "for_each_cpr f sel [] = (None, [])"
| "for_each_cpr f sel (r # rs) =
     (if sel r then
        (case f r of
           Inl e \<Rightarrow> (Some e, r # rs)
         | Inr r' \<Rightarrow> (case for_each_cpr f sel rs of (err, rs') \<Rightarrow> (err, r' # rs')))
      else (case for_each_cpr f sel rs of (err, rs') \<Rightarrow> (err, r # rs')))"

section \<open>The sync state machine of a cloudprovider\<close>

text \<open>\<^verbatim>\<open>SCloudprovider.markStartSync\<close>\<close>

definition markStartSync ::
  "env \<Rightarrow> SCloudprovider \<Rightarrow> SSyncRange option \<Rightarrow> compute_db \<Rightarrow>
   error option \<times> SCloudprovider \<times> compute_db" where
  "markStartSync E self syncRange db =
     (case db_Update_err E (cp_Id self) of
        Some e \<Rightarrow> (Some (Wrap e ''db.Update''), self, db)
      | None \<Rightarrow>
          (let self' = self\<lparr>cp_SyncStatus := CLOUD_PROVIDER_SYNC_STATUS_QUEUED\<rparr>;
               db1 = save_provider self' db
           in case for_each_cpr (cpr_markStartingSync E syncRange)
                     (\<lambda>r. cpr_CloudproviderId r = cp_Id self \<and> cpr_Enabled r)
                     (cloudproviderregions db1) of
                (None, rs) \<Rightarrow> (None, self', db1\<lparr>cloudproviderregions := rs\<rparr>)
              | (Some e, rs) \<Rightarrow>
                  (Some (Wrap e ''cprs[i].markStartingSync''), self',
                   db1\<lparr>cloudproviderregions := rs\<rparr>)))"

text \<open>\<^verbatim>\<open>SCloudprovider.markEndSync\<close>\<close>

definition markEndSync ::
  "env \<Rightarrow> SCloudprovider \<Rightarrow> compute_db \<Rightarrow> error option \<times> SCloudprovider \<times> compute_db" where
  "markEndSync E self db =
     (case db_Update_err E (cp_Id self) of
        Some e \<Rightarrow> (Some (Wrap e ''markEndSync''), self, db)
      | None \<Rightarrow>
          (let self' = self\<lparr>cp_SyncStatus := CLOUD_PROVIDER_SYNC_STATUS_IDLE,
                             cp_LastSyncEndAt := UtcNow E\<rparr>
           in (None, self', save_provider self' db)))"

text \<open>\<^verbatim>\<open>SCloudprovider.getSyncStatus2\<close>: counts the provider's regions that are not idle.\<close>

definition getSyncStatus2 :: "env \<Rightarrow> SCloudprovider \<Rightarrow> compute_db \<Rightarrow> string" where
  "getSyncStatus2 E self db =
     (case CountWithError_err E of
        Some e \<Rightarrow> CLOUD_PROVIDER_SYNC_STATUS_ERROR
      | None \<Rightarrow>
          (if length (filter (\<lambda>r. cpr_CloudproviderId r = cp_Id self \<and>
                                   cpr_SyncStatus r \<noteq> CLOUD_PROVIDER_SYNC_STATUS_IDLE)
                        (cloudproviderregions db)) > 0
           then CLOUD_PROVIDER_SYNC_STATUS_SYNCING
           else CLOUD_PROVIDER_SYNC_STATUS_IDLE))"

text \<open>
  \<^verbatim>\<open>SCloudprovider.markEndSyncWithLock\<close>: the block under the object lock first (the
  anonymous function of the source), then the call of the owning account's
  \<^verbatim>\<open>MarkEndSyncWithLock\<close>.
\<close>

definition markEndSync_locked ::
  "env \<Rightarrow> SCloudprovider \<Rightarrow> compute_db \<Rightarrow> error option \<times> SCloudprovider \<times> compute_db" where
  "markEndSync_locked E self db =
     (if cp_SyncStatus self = CLOUD_PROVIDER_SYNC_STATUS_IDLE then (None, self, db)
      else if getSyncStatus2 E self db \<noteq> CLOUD_PROVIDER_SYNC_STATUS_IDLE then (None, self, db)
      else markEndSync E self db)"

definition markEndSyncWithLock ::
  "env \<Rightarrow> SCloudprovider \<Rightarrow> compute_db \<Rightarrow> error option \<times> SCloudprovider \<times> compute_db" where
  "markEndSyncWithLock E self db =
     (case markEndSync_locked E self db of
        (Some e, self1, db1) \<Rightarrow> (Some e, self1, db1)
      | (None, self1, db1) \<Rightarrow>
          (case GetCloudaccount self1 db1 of
             Inl e \<Rightarrow> (Some (Wrap e ''GetCloudaccount''), self1, db1)
           | Inr account \<Rightarrow>
               (case ca_MarkEndSyncWithLock E account db1 of
                  (err, db2) \<Rightarrow> (err, self1, db2))))"


section \<open>Requesting a sync of a cloudprovider\<close>

text \<open>
  \<^verbatim>\<open>SCloudprovider.StartSyncCloudProviderInfoTask\<close>. The errors of
  \<^verbatim>\<open>MarkSyncing\<close> and of \<open>markStartSync\<close> are dropped, as in the source; the result is
  that of \<^verbatim>\<open>task.ScheduleRun\<close>.
\<close>

definition StartSyncCloudProviderInfoTask ::
  "env \<Rightarrow> SCloudprovider \<Rightarrow> SSyncRange option \<Rightarrow> string \<Rightarrow> compute_db \<Rightarrow>
   error option \<times> SCloudprovider \<times> compute_db" where
  "StartSyncCloudProviderInfoTask E self syncRange parentTaskId db =
     (case NewTask_err E of
        Some e \<Rightarrow> (Some (Wrap e ''NewTask''), self, db)
      | None \<Rightarrow>
          (let t = \<lparr>task_name = ''CloudProviderSyncInfoTask'', task_obj = cp_Id self,
                    task_sync_range = syncRange, task_parent = parentTaskId\<rparr>;
               db1 = db\<lparr>tasks := tasks db @ [t]\<rparr>;
               db2 = (case GetCloudaccount self db1 of
                        Inr cloudaccount \<Rightarrow> save_account (ca_MarkSyncing E cloudaccount) db1
                      | Inl e \<Rightarrow> db1)
           in case markStartSync E self syncRange db2 of
                (err, self3, db3) \<Rightarrow>
                  (ScheduleRun_err E, self3,
                   db3\<lparr>opslog := opslog db3 @ [(cp_Id self, ACT_SYNC_HOST_START)]\<rparr>)))"

text \<open>\<^verbatim>\<open>SCloudprovider.PerformSync\<close>. The empty parent task id \<^verbatim>\<open>""\<close> is the empty list.\<close>

definition PerformSync ::
  "env \<Rightarrow> SCloudprovider \<Rightarrow> SSyncRange \<Rightarrow> compute_db \<Rightarrow>
   error option \<times> SCloudprovider \<times> compute_db" where
  "PerformSync E self input db =
     (if \<not> cp_Enabled self then (Some (InvalidStatusError ''Cloudprovider disabled''), self, db)
      else
        (case GetCloudaccount self db of
           Inl e \<Rightarrow> (Some (Wrap e ''GetCloudaccount''), self, db)
         | Inr account \<Rightarrow>
             (if \<not> ca_Enabled account
                then (Some (InvalidStatusError ''Cloudaccount disabled''), self, db)
              else
                (let syncRange =
                       (if FullSync input \<or> length (Region input) > 0 \<or> length (Zone input) > 0 \<or>
                           length (Host input) > 0 \<or> length (Resources input) > 0
                        then input\<lparr>DeepSync := True\<rparr> else input)
                 in if CanSync E self \<or> Force syncRange
                      then StartSyncCloudProviderInfoTask E self (Some syncRange) [] db
                    else (Some (InvalidStatusError ''Unable to synchronize frequently''),
                          self, db)))))"

section \<open>The account-level sync task\<close>





text \<open>
  The state of one run of \<^verbatim>\<open>CloudAccountSyncInfoTask\<close>: the task's id, its
  \<^verbatim>\<open>sync_range\<close> parameter (absent when the task was created without one), its stage and
  outcome (\<^verbatim>\<open>SetStage\<close>, \<^verbatim>\<open>SetStageFailed\<close>, \<^verbatim>\<open>SetStageComplete\<close>), the cloudaccount
  object the handlers receive, the tables, and the action log of \<^verbatim>\<open>logclient\<close>.
\<close>

datatype task_outcome = Pending | StageFailed error | StageComplete

record sync_pass =
  sp_id :: string
  sp_params :: "SSyncRange option"
  sp_stage :: string
  sp_outcome :: task_outcome
  sp_account :: SCloudaccount
  sp_db :: compute_db
  sp_actionlog :: "(act \<times> bool) list"

definition LogEvent :: "act \<Rightarrow> sync_pass \<Rightarrow> sync_pass" where
  "LogEvent a s =
     s\<lparr>sp_db := (sp_db s)\<lparr>opslog := opslog (sp_db s) @ [(ca_Id (sp_account s), a)]\<rparr>\<rparr>"








section \<open>Normalizing a sync range\<close>

text \<open>
  The rows the scope resolver reads: a region, a zone with the id of its region, a host with
  the id of its zone. The zone carries the columns the zone synchronizer writes as well,
  the host the columns \<^verbatim>\<open>SZone.HostCount\<close> filters on.
\<close>

record SCloudregion =
  region_Id :: string
  region_Name :: string

record SZone =
  zone_Id :: string
  zone_Name :: string
  zone_Status :: string
  zone_ExternalId :: string
  zone_IsEmulated :: bool
  zone_CloudregionId :: string

record SHost =
  host_Id :: string
  host_Name :: string
  host_ZoneId :: string
  host_Status :: string
  host_HostStatus :: string
  host_Enabled :: bool
  host_HostType :: string
  host_IsBaremetal :: bool

text \<open>
  The model managers' lookups, which the persistence layer answers:
  \<^verbatim>\<open>CloudregionManager.FetchByIdOrName\<close>, \<^verbatim>\<open>CloudregionManager.FetchById\<close>,
  \<^verbatim>\<open>ZoneManager.FetchByIdOrName\<close>, \<^verbatim>\<open>HostManager.FetchByIdOrName\<close> and
  \<^verbatim>\<open>SHost.GetZone\<close>. They are parameters; an answer \<open>Inl err\<close> is the error returned.
\<close>

record managers =
  Cloudregion_FetchByIdOrName :: "string \<Rightarrow> error + SCloudregion"
  Cloudregion_FetchById :: "string \<Rightarrow> error + SCloudregion"
  Zone_FetchByIdOrName :: "string \<Rightarrow> error + SZone"
  Host_FetchByIdOrName :: "string \<Rightarrow> error + SHost"
  Host_GetZone :: "SHost \<Rightarrow> error + SZone"

text \<open>\<^verbatim>\<open>SZone.GetCloudRegionId\<close> and \<^verbatim>\<open>SZone.GetRegion\<close>\<close>

definition GetCloudRegionId :: "SZone \<Rightarrow> string" where
  "GetCloudRegionId zone =
     (if length (zone_CloudregionId zone) = 0 then ''default'' else zone_CloudregionId zone)"

definition GetRegion :: "managers \<Rightarrow> SZone \<Rightarrow> error + SCloudregion" where
  "GetRegion M zone = Cloudregion_FetchById M (GetCloudRegionId zone)"

text \<open>\<^verbatim>\<open>utils.IsInStringArray\<close>\<close>

definition IsInStringArray :: "string \<Rightarrow> string list \<Rightarrow> bool" where
  "IsInStringArray s arr = (s \<in> set arr)"

text \<open>
  \<^verbatim>\<open>SSyncRange.normalizeRegionIds\<close>: the loop from index \<open>i\<close>. The range is changed in
  place, so an error leaves the entries before the failing one normalized; the model
  returns the range with the error.
\<close>

function normalizeRegionIds_from :: "managers \<Rightarrow> nat \<Rightarrow> SSyncRange \<Rightarrow> error option \<times> SSyncRange" where
  "normalizeRegionIds_from M i sr =
     (if i < length (Region sr) then
        (case Cloudregion_FetchByIdOrName M (Region sr ! i) of
           Inl err \<Rightarrow>
             (if err = ErrNoRows
                then (Some (ResourceNotFoundError (''Region '' @ Region sr ! i @ '' not found'')), sr)
              else (Some err, sr))
         | Inr obj \<Rightarrow>
             normalizeRegionIds_from M (i + 1) (sr\<lparr>Region := (Region sr)[i := region_Id obj]\<rparr>))
      else (None, sr))"
  by pat_completeness auto
termination
  by (relation "measure (\<lambda>(M, i, sr). length (Region sr) - i)") auto

definition normalizeRegionIds :: "managers \<Rightarrow> SSyncRange \<Rightarrow> error option \<times> SSyncRange" where
  "normalizeRegionIds M sr = normalizeRegionIds_from M 0 sr"

text \<open>\<^verbatim>\<open>SSyncRange.normalizeZoneIds\<close>\<close>

function normalizeZoneIds_from :: "managers \<Rightarrow> nat \<Rightarrow> SSyncRange \<Rightarrow> error option \<times> SSyncRange" where
  "normalizeZoneIds_from M i sr =
     (if i < length (Zone sr) then
        (case Zone_FetchByIdOrName M (Zone sr ! i) of
           Inl err \<Rightarrow>
             (if err = ErrNoRows
                then (Some (ResourceNotFoundError (''Zone '' @ Zone sr ! i @ '' not found'')), sr)
              else (Some err, sr))
         | Inr zone \<Rightarrow>
             (case GetRegion M zone of
                Inl e \<Rightarrow> normalizeZoneIds_from M (i + 1) sr
              | Inr region \<Rightarrow>
                  normalizeZoneIds_from M (i + 1)
                    (sr\<lparr>Zone := (Zone sr)[i := zone_Id zone],
                        Region := (if \<not> IsInStringArray (region_Id region) (Region sr)
                                   then Region sr @ [region_Id region] else Region sr)\<rparr>)))
      else (None, sr))"
  by pat_completeness auto
termination
  by (relation "measure (\<lambda>(M, i, sr). length (Zone sr) - i)") auto

definition normalizeZoneIds :: "managers \<Rightarrow> SSyncRange \<Rightarrow> error option \<times> SSyncRange" where
  "normalizeZoneIds M sr = normalizeZoneIds_from M 0 sr"

text \<open>\<^verbatim>\<open>SSyncRange.normalizeHostIds\<close>\<close>

function normalizeHostIds_from :: "managers \<Rightarrow> nat \<Rightarrow> SSyncRange \<Rightarrow> error option \<times> SSyncRange" where
  "normalizeHostIds_from M i sr =
     (if i < length (Host sr) then
        (case Host_FetchByIdOrName M (Host sr ! i) of
           Inl err \<Rightarrow>
             (if err = ErrNoRows
                then (Some (ResourceNotFoundError (''Host '' @ Host sr ! i @ '' not found'')), sr)
              else (Some err, sr))
         | Inr host \<Rightarrow>
             (case Host_GetZone M host of
                Inl e \<Rightarrow> normalizeHostIds_from M (i + 1) sr
              | Inr zone \<Rightarrow>
                  (case GetRegion M zone of
                     Inl e \<Rightarrow> normalizeHostIds_from M (i + 1) sr
                   | Inr region \<Rightarrow>
                       normalizeHostIds_from M (i + 1)
                         (sr\<lparr>Host := (Host sr)[i := host_Id host],
                             Zone := (if \<not> IsInStringArray (zone_Id zone) (Zone sr)
                                      then Zone sr @ [zone_Id zone] else Zone sr),
                             Region := (if \<not> IsInStringArray (region_Id region) (Region sr)
                                        then Region sr @ [region_Id region] else Region sr)\<rparr>))))
      else (None, sr))"
  by pat_completeness auto
termination
  by (relation "measure (\<lambda>(M, i, sr). length (Host sr) - i)") auto

definition normalizeHostIds :: "managers \<Rightarrow> SSyncRange \<Rightarrow> error option \<times> SSyncRange" where
  "normalizeHostIds M sr = normalizeHostIds_from M 0 sr"

text \<open>\<^verbatim>\<open>SSyncRange.Normalize\<close>. A nil slice has length 0.\<close>

definition Normalize :: "managers \<Rightarrow> SSyncRange \<Rightarrow> error option \<times> SSyncRange" where
  "Normalize M sr =
     (case (if length (Region sr) > 0 then normalizeRegionIds M sr
            else (None, sr\<lparr>Region := []\<rparr>)) of
        (Some err, sr1) \<Rightarrow> (Some err, sr1)
      | (None, sr1) \<Rightarrow>
          (case (if length (Zone sr1) > 0 then normalizeZoneIds M sr1
                 else (None, sr1\<lparr>Zone := []\<rparr>)) of
             (Some err, sr2) \<Rightarrow> (Some err, sr2)
           | (None, sr2) \<Rightarrow>
               (case (if length (Host sr2) > 0 then normalizeHostIds M sr2
                      else (None, sr2\<lparr>Host := []\<rparr>)) of
                  (Some err, sr3) \<Rightarrow> (Some err, sr3)
                | (None, sr3) \<Rightarrow> (None, sr3))))"

text \<open>
  Lookups over three small tables, for the examples: by id the first row with the id; by
  id or name the row with the id, else the one row with the name
  (\<^verbatim>\<open>sql.ErrNoRows\<close> when there is none, another error when the name is not unique).
\<close>

definition fetch_by_id :: "('a \<Rightarrow> string) \<Rightarrow> 'a list \<Rightarrow> string \<Rightarrow> error + 'a" where
  "fetch_by_id ident tbl s =
     (case find (\<lambda>x. ident x = s) tbl of None \<Rightarrow> Inl ErrNoRows | Some x \<Rightarrow> Inr x)"

definition fetch_by_id_or_name ::
  "('a \<Rightarrow> string) \<Rightarrow> ('a \<Rightarrow> string) \<Rightarrow> 'a list \<Rightarrow> string \<Rightarrow> error + 'a" where
  "fetch_by_id_or_name ident name tbl s =
     (case find (\<lambda>x. ident x = s) tbl of
        Some x \<Rightarrow> Inr x
      | None \<Rightarrow>
          (case filter (\<lambda>x. name x = s) tbl of
             [] \<Rightarrow> Inl ErrNoRows
           | [x] \<Rightarrow> Inr x
           | x # y # ys \<Rightarrow> Inl (OtherError ''duplicate name'')))"

definition table_managers :: "SCloudregion list \<Rightarrow> SZone list \<Rightarrow> SHost list \<Rightarrow> managers" where
  "table_managers regions zones hosts =
     \<lparr>Cloudregion_FetchByIdOrName = fetch_by_id_or_name region_Id region_Name regions,
      Cloudregion_FetchById = fetch_by_id region_Id regions,
      Zone_FetchByIdOrName = fetch_by_id_or_name zone_Id zone_Name zones,
      Host_FetchByIdOrName = fetch_by_id_or_name host_Id host_Name hosts,
      Host_GetZone = (\<lambda>h. fetch_by_id zone_Id zones (host_ZoneId h))\<rparr>"

text \<open>
  The error a failed lookup turns into: \<^verbatim>\<open>sql.ErrNoRows\<close> becomes a resource-not-found
  error naming the kind and the identifier; any other error is returned as it is.
\<close>

definition lookup_error :: "string \<Rightarrow> string \<Rightarrow> error \<Rightarrow> error" where
  "lookup_error kind ident err =
     (if err = ErrNoRows then ResourceNotFoundError (kind @ ident @ '' not found'') else err)"

text \<open>
  What normalization makes of one listed identifier. A zone identifier \<open>x\<close> ends as \<open>y\<close>:
  its zone is found, and either the zone's region is found, \<open>y\<close> is the zone's id and the
  region's id is in the region list \<open>R\<close>; or the zone's region is not found and the entry is
  left as supplied. A host identifier \<open>x\<close> ends as \<open>y\<close>: its host is found, and either its
  zone and the zone's region are found, \<open>y\<close> is the host's id, the zone's id is in \<open>Zs\<close> and
  the region's id in \<open>R\<close>; or the zone or the region is not found and the entry is left as
  supplied. A zone id \<open>y\<close> added for a host: the zone of a listed host, its region found and
  in \<open>R\<close>.
\<close>

definition zone_entry_ok :: "managers \<Rightarrow> string \<Rightarrow> string \<Rightarrow> string set \<Rightarrow> bool" where
  "zone_entry_ok M x y R =
     (\<exists>z. Zone_FetchByIdOrName M x = Inr z \<and>
        ((\<exists>r. GetRegion M z = Inr r \<and> y = zone_Id z \<and> region_Id r \<in> R) \<or>
         ((\<exists>e. GetRegion M z = Inl e) \<and> y = x)))"

definition host_entry_ok ::
  "managers \<Rightarrow> string \<Rightarrow> string \<Rightarrow> string set \<Rightarrow> string set \<Rightarrow> bool" where
  "host_entry_ok M x y Zs R =
     (\<exists>h. Host_FetchByIdOrName M x = Inr h \<and>
        ((\<exists>z r. Host_GetZone M h = Inr z \<and> GetRegion M z = Inr r \<and> y = host_Id h \<and>
                zone_Id z \<in> Zs \<and> region_Id r \<in> R) \<or>
         (((\<exists>e. Host_GetZone M h = Inl e) \<or>
           (\<exists>z e. Host_GetZone M h = Inr z \<and> GetRegion M z = Inl e)) \<and> y = x)))"

definition host_zone_ok :: "managers \<Rightarrow> string list \<Rightarrow> string \<Rightarrow> string set \<Rightarrow> bool" where
  "host_zone_ok M xs y R =
     (\<exists>x h z r. x \<in> set xs \<and> Host_FetchByIdOrName M x = Inr h \<and> Host_GetZone M h = Inr z \<and>
        GetRegion M z = Inr r \<and> y = zone_Id z \<and> region_Id r \<in> R)"

text \<open>
  What normalization makes of the region list. A listed region identifier \<open>x\<close> ends as
  \<open>y\<close>: its region is found and \<open>y\<close> is the region's id. A region id \<open>y\<close> added for a zone:
  the id of the region of a listed zone, zone and region found. A region id \<open>y\<close> added for a
  host: the id of the region of the zone of a listed host, all three found.
\<close>

definition region_entry_ok :: "managers \<Rightarrow> string \<Rightarrow> string \<Rightarrow> bool" where
  "region_entry_ok M x y = (\<exists>r. Cloudregion_FetchByIdOrName M x = Inr r \<and> y = region_Id r)"

definition zone_region_ok :: "managers \<Rightarrow> string list \<Rightarrow> string \<Rightarrow> bool" where
  "zone_region_ok M xs y =
     (\<exists>x z r. x \<in> set xs \<and> Zone_FetchByIdOrName M x = Inr z \<and> GetRegion M z = Inr r \<and>
        y = region_Id r)"

definition host_region_ok :: "managers \<Rightarrow> string list \<Rightarrow> string \<Rightarrow> bool" where
  "host_region_ok M xs y =
     (\<exists>x h z r. x \<in> set xs \<and> Host_FetchByIdOrName M x = Inr h \<and> Host_GetZone M h = Inr z \<and>
        GetRegion M z = Inr r \<and> y = region_Id r)"

section \<open>The comparator\<close>

text \<open>
  Modelled from the spec: \<^verbatim>\<open>compare.CompareSets\<close> (package
  \<^verbatim>\<open>yunion.io/x/pkg/util/compare\<close>, vendored and not among the sources). Section 4.1:
  given an ordered collection of local records and an ordered collection of remote
  records, both exposing a matching key, it partitions them into \<open>removed\<close> (present
  locally, absent remotely), \<open>added\<close> (present remotely, absent locally) and
  \<open>commonLocal\<close>/\<open>commonRemote\<close>, "pairs matched by key, aligned by index"; "matching
  is by exact key equality"; it "fails with ComparisonError if key extraction fails for
  any element". The local records are taken in order; each is paired with the first
  remote record of the same key that is not yet paired, and a remote record is paired
  once. The result is in the order of the Go call's output arguments: removed, common
  local, common remote, added. A key that cannot be extracted is \<open>None\<close>.
\<close>

fun take_match :: "('r \<Rightarrow> string) \<Rightarrow> string \<Rightarrow> 'r list \<Rightarrow> ('r \<times> 'r list) option" where
  "take_match key k [] = None"
| "take_match key k (r # rs) =
     (if key r = k then Some (r, rs)
      else (case take_match key k rs of
              None \<Rightarrow> None
            | Some (m, rest) \<Rightarrow> Some (m, r # rest)))"

fun pair_up ::
  "('l \<Rightarrow> string) \<Rightarrow> ('r \<Rightarrow> string) \<Rightarrow> 'l list \<Rightarrow> 'r list \<Rightarrow>
   'l list \<times> 'l list \<times> 'r list \<times> 'r list" where
  "pair_up kl kr [] rs = ([], [], [], rs)"
| "pair_up kl kr (l # ls) rs =
     (case take_match kr (kl l) rs of
        None \<Rightarrow>
          (case pair_up kl kr ls rs of
             (removed, commonLocal, commonRemote, added) \<Rightarrow>
               (l # removed, commonLocal, commonRemote, added))
      | Some (r, rest) \<Rightarrow>
          (case pair_up kl kr ls rest of
             (removed, commonLocal, commonRemote, added) \<Rightarrow>
               (removed, l # commonLocal, r # commonRemote, added)))"

definition CompareSets ::
  "('l \<Rightarrow> string option) \<Rightarrow> ('r \<Rightarrow> string option) \<Rightarrow> 'l list \<Rightarrow> 'r list \<Rightarrow>
   error + ('l list \<times> 'l list \<times> 'r list \<times> 'r list)" where
  "CompareSets kl kr dbSet extSet =
     (if list_ex (\<lambda>l. kl l = None) dbSet \<or> list_ex (\<lambda>r. kr r = None) extSet
      then Inl (ComparisonError ''key extraction failed'')
      else Inr (pair_up (\<lambda>l. the (kl l)) (\<lambda>r. the (kr r)) dbSet extSet))"

section \<open>Synchronizing the zones of a region\<close>

text \<open>\<^verbatim>\<open>cloudprovider.ICloudZone\<close>: the provider's view of a zone.\<close>

record ICloudZone =
  ext_GlobalId :: string
  ext_Name :: string
  ext_Status :: string
  ext_IsEmulated :: bool































section \<open>Example data\<close>

text \<open>
  One account \<open>a1\<close> with one provider \<open>p1\<close>; the region rows are one of \<open>p1\<close> and one of
  another provider. The absent methods are instantiated with the simplest behaviour that
  fits their names.
\<close>

text \<open>
  An account-level \<^verbatim>\<open>MarkEndSyncWithLock\<close> for the examples of the cloudprovider code: the
  account becomes idle, with its last-sync-end time set, when all its cloudproviders are
  idle, and is left as it is otherwise.
\<close>

definition ex_gated_MarkEndSyncWithLock ::
  "nat \<Rightarrow> SCloudaccount \<Rightarrow> compute_db \<Rightarrow> SCloudaccount \<times> compute_db" where
  "ex_gated_MarkEndSyncWithLock now account db =
     (if list_all (\<lambda>p. cp_CloudaccountId p = ca_Id account \<longrightarrow>
                        cp_SyncStatus p = CLOUD_PROVIDER_SYNC_STATUS_IDLE) (cloudproviders db)
      then (let account' = account\<lparr>ca_SyncStatus := CLOUD_PROVIDER_SYNC_STATUS_IDLE,
                                   ca_LastSyncEndAt := now\<rparr>
            in (account', save_account account' db))
      else (account, db))"

definition ex_env :: env where
  "ex_env = \<lparr>UtcNow = 7, db_Update_err = (\<lambda>i. None), CountWithError_err = None,
     NewTask_err = None, ScheduleRun_err = None,
     CanSync = (\<lambda>p. cp_SyncStatus p = ''idle''),
     cpr_markStartingSync = (\<lambda>sr r. Inr (r\<lparr>cpr_SyncStatus := ''queuing''\<rparr>)),
     cpr_cancelStartingSync =
       (\<lambda>r. Inr (if cpr_SyncStatus r = ''queuing'' then r\<lparr>cpr_SyncStatus := ''idle''\<rparr> else r)),
     ca_MarkSyncing = (\<lambda>a. a\<lparr>ca_SyncStatus := ''syncing''\<rparr>),
     ca_MarkEndSyncWithLock = (\<lambda>a db. (None, snd (ex_gated_MarkEndSyncWithLock 7 a db)))\<rparr>"

definition ex_provider :: "string \<Rightarrow> SCloudprovider" where
  "ex_provider st = \<lparr>cp_Id = ''p1'', cp_Enabled = True, cp_SyncStatus = st, cp_LastSync = 3,
     cp_LastSyncEndAt = 0, cp_CloudaccountId = ''a1''\<rparr>"

definition ex_account :: "string \<Rightarrow> SCloudaccount" where
  "ex_account st = \<lparr>ca_Id = ''a1'', ca_Enabled = True, ca_SyncStatus = st, ca_LastSync = 3,
     ca_LastSyncEndAt = 0\<rparr>"

definition ex_region :: "string \<Rightarrow> string \<Rightarrow> string \<Rightarrow> SCloudproviderregion" where
  "ex_region p r st = \<lparr>cpr_CloudproviderId = p, cpr_CloudregionId = r, cpr_Enabled = True,
     cpr_SyncStatus = st\<rparr>"

definition ex_db :: "string \<Rightarrow> string \<Rightarrow> string \<Rightarrow> compute_db" where
  "ex_db ast pst rst = \<lparr>cloudaccounts = [ex_account ast], cloudproviders = [ex_provider pst],
     cloudproviderregions = [ex_region ''p1'' ''r1'' rst, ex_region ''p2'' ''r1'' ''queuing''],
     tasks = [], opslog = []\<rparr>"

definition ex_range :: SSyncRange where
  "ex_range = \<lparr>Force = False, FullSync = False, DeepSync = False, Region = [''r1''],
     Zone = [], Host = [], Resources = []\<rparr>"




definition ex_zone :: "string \<Rightarrow> string \<Rightarrow> string \<Rightarrow> string \<Rightarrow> SZone" where
  "ex_zone i n ext r = \<lparr>zone_Id = i, zone_Name = n, zone_Status = ''enable'',
     zone_ExternalId = ext, zone_IsEmulated = False, zone_CloudregionId = r\<rparr>"

definition ex_host :: "string \<Rightarrow> string \<Rightarrow> string \<Rightarrow> SHost" where
  "ex_host i n z = \<lparr>host_Id = i, host_Name = n, host_ZoneId = z, host_Status = ''running'',
     host_HostStatus = ''online'', host_Enabled = True, host_HostType = ''hypervisor'',
     host_IsBaremetal = False\<rparr>"

definition ex_managers :: managers where
  "ex_managers = table_managers
     [\<lparr>region_Id = ''r1'', region_Name = ''Region-1''\<rparr>,
      \<lparr>region_Id = ''r2'', region_Name = ''east''\<rparr>,
      \<lparr>region_Id = ''r3'', region_Name = ''east''\<rparr>]
     [ex_zone ''z1'' ''zoneA'' ''ext-z1'' ''r1'', ex_zone ''z2'' ''zoneB'' ''ext-z2'' ''r-gone'']
     [ex_host ''h1'' ''hostA'' ''z1'', ex_host ''h2'' ''hostB'' ''z2'']"

definition ex_scope :: "string list \<Rightarrow> string list \<Rightarrow> string list \<Rightarrow> SSyncRange" where
  "ex_scope rs zs hs = \<lparr>Force = False, FullSync = False, DeepSync = False, Region = rs,
     Zone = zs, Host = hs, Resources = []\<rparr>"

definition ex_ext :: "string \<Rightarrow> string \<Rightarrow> ICloudZone" where
  "ex_ext gid n = \<lparr>ext_GlobalId = gid, ext_Name = n, ext_Status = ''enable'',
     ext_IsEmulated = False\<rparr>"

definition ex_cmp ::
  "SZone list \<Rightarrow> ICloudZone list \<Rightarrow>
   error + (SZone list \<times> SZone list \<times> ICloudZone list \<times> ICloudZone list)" where
  "ex_cmp = CompareSets (\<lambda>z. Some (zone_ExternalId z)) (\<lambda>e. Some (ext_GlobalId e))"





section \<open>Auxiliary lemmas\<close>

declare normalizeRegionIds_from.simps [simp del]
declare normalizeZoneIds_from.simps [simp del]
declare normalizeHostIds_from.simps [simp del]

lemmas sync_status_defs =
  CLOUD_PROVIDER_SYNC_STATUS_IDLE_def CLOUD_PROVIDER_SYNC_STATUS_QUEUING_def
  CLOUD_PROVIDER_SYNC_STATUS_QUEUED_def CLOUD_PROVIDER_SYNC_STATUS_SYNCING_def
  CLOUD_PROVIDER_SYNC_STATUS_ERROR_def

lemmas ex_defs = ex_env_def ex_provider_def ex_account_def ex_region_def ex_db_def ex_range_def

subsection \<open>Requesting a sync\<close>

lemma StartSync_tasks:
  "NewTask_err E = None \<Longrightarrow>
   StartSyncCloudProviderInfoTask E self sr parent db = (err, self', db') \<Longrightarrow>
   tasks db' = tasks db @ [\<lparr>task_name = ''CloudProviderSyncInfoTask'', task_obj = cp_Id self,
                    task_sync_range = sr, task_parent = parent\<rparr>] \<and> err = ScheduleRun_err E"
  by (auto simp: StartSyncCloudProviderInfoTask_def markStartSync_def Let_def save_provider_def save_account_def
       split: option.splits sum.splits prod.splits)

lemma StartSync_NewTask_fails:
  "NewTask_err E = Some e \<Longrightarrow>
   StartSyncCloudProviderInfoTask E self sr parent db = (Some (Wrap e ''NewTask''), self, db)"
  by (simp add: StartSyncCloudProviderInfoTask_def)

subsection \<open>The state machine of a cloudprovider\<close>



lemma getSyncStatus2_idle:
  "getSyncStatus2 E self db = CLOUD_PROVIDER_SYNC_STATUS_IDLE \<longleftrightarrow>
     CountWithError_err E = None \<and>
     (\<forall>r\<in>set (cloudproviderregions db). cpr_CloudproviderId r = cp_Id self \<longrightarrow>
        cpr_SyncStatus r = CLOUD_PROVIDER_SYNC_STATUS_IDLE)"
  by (auto simp: getSyncStatus2_def sync_status_defs filter_empty_conv split: option.splits)

lemma GetCloudaccount_save_provider [simp]:
  "GetCloudaccount self' (save_provider p db) = GetCloudaccount self' db"
  by (simp add: GetCloudaccount_def save_provider_def)

subsection \<open>The account-level task\<close>

lemma LogEvent_keeps [simp]:
  "sp_account (LogEvent a s) = sp_account s"
  "sp_outcome (LogEvent a s) = sp_outcome s"
  "cloudaccounts (sp_db (LogEvent a s)) = cloudaccounts (sp_db s)"
  "opslog (sp_db (LogEvent a s)) = opslog (sp_db s) @ [(ca_Id (sp_account s), a)]"
  by (simp_all add: LogEvent_def)







subsection \<open>The loops of the scope resolver\<close>

lemma region_loop_none:
  "normalizeRegionIds_from M i sr = (None, sr') \<Longrightarrow>
   (\<forall>j. i \<le> j \<and> j < length (Region sr) \<longrightarrow>
      (\<exists>obj. Cloudregion_FetchByIdOrName M (Region sr ! j) = Inr obj)) \<and>
   Zone sr' = Zone sr \<and> Host sr' = Host sr"
proof (induction M i sr rule: normalizeRegionIds_from.induct)
  case (1 M i sr)
  show ?case
  proof (cases "i < length (Region sr)")
    case False
    with "1.prems" show ?thesis by (auto simp: normalizeRegionIds_from.simps [of M i sr])
  next
    case True
    with "1.prems" obtain obj where f: "Cloudregion_FetchByIdOrName M (Region sr ! i) = Inr obj"
      by (cases "Cloudregion_FetchByIdOrName M (Region sr ! i)")
         (auto simp: normalizeRegionIds_from.simps [of M i sr] split: if_splits)
    let ?sr1 = "sr\<lparr>Region := (Region sr)[i := region_Id obj]\<rparr>"
    from "1.prems" True f have r: "normalizeRegionIds_from M (i + 1) ?sr1 = (None, sr')"
      by (simp add: normalizeRegionIds_from.simps [of M i sr])
    from "1.IH" [OF True f r] have ih: "\<forall>j. i + 1 \<le> j \<and> j < length (Region sr) \<longrightarrow>
      (\<exists>obj. Cloudregion_FetchByIdOrName M (Region sr ! j) = Inr obj)"
      and rest: "Zone sr' = Zone sr \<and> Host sr' = Host sr"
      by auto
    have "\<exists>obj. Cloudregion_FetchByIdOrName M (Region sr ! j) = Inr obj"
      if "i \<le> j" "j < length (Region sr)" for j
    proof (cases "j = i")
      case True then show ?thesis using f by simp
    next
      case False with that ih show ?thesis by simp
    qed
    with rest show ?thesis by simp
  qed
qed

lemma region_loop_err:
  "i \<le> k \<Longrightarrow> k < length (Region sr) \<Longrightarrow>
   (\<forall>j. i \<le> j \<and> j < k \<longrightarrow> (\<exists>obj. Cloudregion_FetchByIdOrName M (Region sr ! j) = Inr obj)) \<Longrightarrow>
   Cloudregion_FetchByIdOrName M (Region sr ! k) = Inl e \<Longrightarrow>
   fst (normalizeRegionIds_from M i sr) = Some (lookup_error ''Region '' (Region sr ! k) e) \<and>
   Zone (snd (normalizeRegionIds_from M i sr)) = Zone sr \<and>
   Host (snd (normalizeRegionIds_from M i sr)) = Host sr"
proof (induction M i sr rule: normalizeRegionIds_from.induct)
  case (1 M i sr)
  from "1.prems" have lt: "i < length (Region sr)" by simp
  show ?case
  proof (cases "k = i")
    case True
    with "1.prems" lt show ?thesis
      by (simp add: normalizeRegionIds_from.simps [of M i sr] lookup_error_def)
  next
    case False
    with "1.prems" have ik: "i < k" by simp
    with "1.prems" obtain obj where f: "Cloudregion_FetchByIdOrName M (Region sr ! i) = Inr obj"
      by auto
    let ?sr1 = "sr\<lparr>Region := (Region sr)[i := region_Id obj]\<rparr>"
    have step: "normalizeRegionIds_from M i sr = normalizeRegionIds_from M (i + 1) ?sr1"
      using lt f by (simp add: normalizeRegionIds_from.simps [of M i sr])
    have nth: "Region ?sr1 ! j = Region sr ! j" if "i < j" for j using that by simp
    have "fst (normalizeRegionIds_from M (i + 1) ?sr1) =
            Some (lookup_error ''Region '' (Region ?sr1 ! k) e) \<and>
          Zone (snd (normalizeRegionIds_from M (i + 1) ?sr1)) = Zone ?sr1 \<and>
          Host (snd (normalizeRegionIds_from M (i + 1) ?sr1)) = Host ?sr1"
    proof (rule "1.IH" [OF lt f])
      show "i + 1 \<le> k" using ik by simp
      show "k < length (Region ?sr1)" using "1.prems" by simp
      show "\<forall>j. i + 1 \<le> j \<and> j < k \<longrightarrow>
          (\<exists>obj. Cloudregion_FetchByIdOrName M (Region ?sr1 ! j) = Inr obj)"
        using "1.prems"(3) by (simp add: nth)
      show "Cloudregion_FetchByIdOrName M (Region ?sr1 ! k) = Inl e"
        using "1.prems"(4) ik by (simp add: nth)
    qed
    with ik show ?thesis by (simp add: step nth)
  qed
qed


lemma zone_entry_ok_mono: "zone_entry_ok M x y R \<Longrightarrow> R \<subseteq> R' \<Longrightarrow> zone_entry_ok M x y R'"
  unfolding zone_entry_ok_def by blast

lemma host_entry_ok_mono:
  "host_entry_ok M x y Zs R \<Longrightarrow> Zs \<subseteq> Zs' \<Longrightarrow> R \<subseteq> R' \<Longrightarrow> host_entry_ok M x y Zs' R'"
  unfolding host_entry_ok_def by blast

lemma host_zone_ok_mono:
  "host_zone_ok M xs y R \<Longrightarrow> set xs \<subseteq> set xs' \<Longrightarrow> R \<subseteq> R' \<Longrightarrow> host_zone_ok M xs' y R'"
  unfolding host_zone_ok_def by blast

lemma zone_loop_none:
  "normalizeZoneIds_from M i sr = (None, sr') \<Longrightarrow>
   Host sr' = Host sr \<and> length (Zone sr') = length (Zone sr) \<and>
   set (Region sr) \<subseteq> set (Region sr') \<and>
   (\<forall>j<i. Zone sr' ! j = Zone sr ! j) \<and>
   (\<forall>j. i \<le> j \<and> j < length (Zone sr) \<longrightarrow>
      zone_entry_ok M (Zone sr ! j) (Zone sr' ! j) (set (Region sr')))"
proof (induction M i sr rule: normalizeZoneIds_from.induct)
  case (1 M i sr)
  show ?case
  proof (cases "i < length (Zone sr)")
    case False
    with "1.prems" show ?thesis by (auto simp: normalizeZoneIds_from.simps [of M i sr])
  next
    case True
    with "1.prems" obtain z where f: "Zone_FetchByIdOrName M (Zone sr ! i) = Inr z"
      by (cases "Zone_FetchByIdOrName M (Zone sr ! i)")
         (auto simp: normalizeZoneIds_from.simps [of M i sr] split: if_splits)
    show ?thesis
    proof (cases "GetRegion M z")
      case (Inl e)
      from "1.prems" True f Inl have r: "normalizeZoneIds_from M (i + 1) sr = (None, sr')"
        by (simp add: normalizeZoneIds_from.simps [of M i sr])
      note ih = "1.IH"(1) [OF True f Inl r]
      from ih have keep: "Zone sr' ! i = Zone sr ! i" by simp
      have "zone_entry_ok M (Zone sr ! i) (Zone sr' ! i) (set (Region sr'))"
        unfolding zone_entry_ok_def using f Inl keep by auto
      moreover from ih have "\<forall>j. i + 1 \<le> j \<and> j < length (Zone sr) \<longrightarrow>
          zone_entry_ok M (Zone sr ! j) (Zone sr' ! j) (set (Region sr'))" by blast
      ultimately have "\<forall>j. i \<le> j \<and> j < length (Zone sr) \<longrightarrow>
          zone_entry_ok M (Zone sr ! j) (Zone sr' ! j) (set (Region sr'))"
        by (metis Suc_eq_plus1 Suc_leI le_neq_implies_less)
      with ih show ?thesis by simp
    next
      case (Inr region)
      let ?sr1 = "sr\<lparr>Zone := (Zone sr)[i := zone_Id z],
                     Region := (if \<not> IsInStringArray (region_Id region) (Region sr)
                                then Region sr @ [region_Id region] else Region sr)\<rparr>"
      from "1.prems" True f Inr have r: "normalizeZoneIds_from M (i + 1) ?sr1 = (None, sr')"
        by (simp add: normalizeZoneIds_from.simps [of M i sr])
      note ih = "1.IH"(2) [OF True f Inr r]
      have reg1: "set (Region sr) \<subseteq> set (Region ?sr1)" "region_Id region \<in> set (Region ?sr1)"
        by (auto simp: IsInStringArray_def)
      from ih have sub: "set (Region ?sr1) \<subseteq> set (Region sr')" by blast
      from ih True have at_i: "Zone sr' ! i = zone_Id z" by simp
      have "zone_entry_ok M (Zone sr ! i) (Zone sr' ! i) (set (Region sr'))"
        unfolding zone_entry_ok_def using f Inr at_i reg1 sub by blast
      moreover from ih have "\<forall>j. i + 1 \<le> j \<and> j < length (Zone sr) \<longrightarrow>
          zone_entry_ok M (Zone sr ! j) (Zone sr' ! j) (set (Region sr'))" by simp
      ultimately have all: "\<forall>j. i \<le> j \<and> j < length (Zone sr) \<longrightarrow>
          zone_entry_ok M (Zone sr ! j) (Zone sr' ! j) (set (Region sr'))"
        by (metis Suc_eq_plus1 Suc_leI le_neq_implies_less)
      from ih have before: "\<forall>j<i. Zone sr' ! j = Zone sr ! j" by simp
      from ih have "Host sr' = Host sr" "length (Zone sr') = length (Zone sr)" by simp_all
      with all before reg1 sub show ?thesis by blast
    qed
  qed
qed


lemma zone_loop_err:
  "i \<le> k \<Longrightarrow> k < length (Zone sr) \<Longrightarrow>
   (\<forall>j. i \<le> j \<and> j < k \<longrightarrow> (\<exists>z. Zone_FetchByIdOrName M (Zone sr ! j) = Inr z)) \<Longrightarrow>
   Zone_FetchByIdOrName M (Zone sr ! k) = Inl e \<Longrightarrow>
   fst (normalizeZoneIds_from M i sr) = Some (lookup_error ''Zone '' (Zone sr ! k) e) \<and>
   Host (snd (normalizeZoneIds_from M i sr)) = Host sr"
proof (induction M i sr rule: normalizeZoneIds_from.induct)
  case (1 M i sr)
  from "1.prems" have lt: "i < length (Zone sr)" by simp
  show ?case
  proof (cases "k = i")
    case True
    with "1.prems" lt show ?thesis
      by (simp add: normalizeZoneIds_from.simps [of M i sr] lookup_error_def)
  next
    case False
    with "1.prems" have ik: "i < k" by simp
    with "1.prems" obtain z where f: "Zone_FetchByIdOrName M (Zone sr ! i) = Inr z"
      by auto
    show ?thesis
    proof (cases "GetRegion M z")
      case (Inl e')
      have step: "normalizeZoneIds_from M i sr = normalizeZoneIds_from M (i + 1) sr"
        using lt f Inl by (simp add: normalizeZoneIds_from.simps [of M i sr])
      have "fst (normalizeZoneIds_from M (i + 1) sr) =
              Some (lookup_error ''Zone '' (Zone sr ! k) e) \<and>
            Host (snd (normalizeZoneIds_from M (i + 1) sr)) = Host sr"
      proof (rule "1.IH"(1) [OF lt f Inl])
        show "i + 1 \<le> k" using ik by simp
        show "k < length (Zone sr)" using "1.prems" by simp
        show "\<forall>j. i + 1 \<le> j \<and> j < k \<longrightarrow> (\<exists>z. Zone_FetchByIdOrName M (Zone sr ! j) = Inr z)"
          using "1.prems"(3) by simp
        show "Zone_FetchByIdOrName M (Zone sr ! k) = Inl e" using "1.prems"(4) .
      qed
      then show ?thesis by (simp add: step)
    next
      case (Inr region)
      let ?sr1 = "sr\<lparr>Zone := (Zone sr)[i := zone_Id z],
                     Region := (if \<not> IsInStringArray (region_Id region) (Region sr)
                                then Region sr @ [region_Id region] else Region sr)\<rparr>"
      have step: "normalizeZoneIds_from M i sr = normalizeZoneIds_from M (i + 1) ?sr1"
        using lt f Inr by (simp add: normalizeZoneIds_from.simps [of M i sr])
      have nth: "Zone ?sr1 ! j = Zone sr ! j" if "i < j" for j using that by simp
      have "fst (normalizeZoneIds_from M (i + 1) ?sr1) =
              Some (lookup_error ''Zone '' (Zone ?sr1 ! k) e) \<and>
            Host (snd (normalizeZoneIds_from M (i + 1) ?sr1)) = Host ?sr1"
      proof (rule "1.IH"(2) [OF lt f Inr])
        show "i + 1 \<le> k" using ik by simp
        show "k < length (Zone ?sr1)" using "1.prems" by simp
        show "\<forall>j. i + 1 \<le> j \<and> j < k \<longrightarrow>
            (\<exists>z. Zone_FetchByIdOrName M (Zone ?sr1 ! j) = Inr z)"
          using "1.prems"(3) by (simp add: nth)
        show "Zone_FetchByIdOrName M (Zone ?sr1 ! k) = Inl e"
          using "1.prems"(4) ik by (simp add: nth)
      qed
      with ik show ?thesis by (simp add: step nth)
    qed
  qed
qed

lemma zone_loop_fetched:
  "normalizeZoneIds_from M i sr = (None, sr') \<Longrightarrow> i \<le> j \<Longrightarrow> j < length (Zone sr) \<Longrightarrow>
   \<exists>z. Zone_FetchByIdOrName M (Zone sr ! j) = Inr z"
  using zone_loop_none [of M i sr sr'] unfolding zone_entry_ok_def by blast


lemma extend_from_Suc:
  "P i \<Longrightarrow> \<forall>j. i + 1 \<le> j \<and> j < n \<longrightarrow> P j \<Longrightarrow> \<forall>j. i \<le> j \<and> j < (n::nat) \<longrightarrow> P j"
  by (metis Suc_eq_plus1 Suc_leI le_neq_implies_less)

lemma host_loop_none:
  "normalizeHostIds_from M i sr = (None, sr') \<Longrightarrow>
   length (Host sr') = length (Host sr) \<and>
   set (Region sr) \<subseteq> set (Region sr') \<and>
   (\<exists>zs. Zone sr' = Zone sr @ zs \<and>
      (\<forall>y\<in>set zs. host_zone_ok M (drop i (Host sr)) y (set (Region sr')))) \<and>
   (\<forall>j<i. Host sr' ! j = Host sr ! j) \<and>
   (\<forall>j. i \<le> j \<and> j < length (Host sr) \<longrightarrow>
      host_entry_ok M (Host sr ! j) (Host sr' ! j) (set (Zone sr')) (set (Region sr')))"
proof (induction M i sr rule: normalizeHostIds_from.induct)
  case (1 M i sr)
  show ?case
  proof (cases "i < length (Host sr)")
    case False
    with "1.prems" show ?thesis by (auto simp: normalizeHostIds_from.simps [of M i sr])
  next
    case True
    with "1.prems" obtain h where f: "Host_FetchByIdOrName M (Host sr ! i) = Inr h"
      by (cases "Host_FetchByIdOrName M (Host sr ! i)")
         (auto simp: normalizeHostIds_from.simps [of M i sr] split: if_splits)
    have dropsub: "set (drop (i + 1) (Host sr)) \<subseteq> set (drop i (Host sr))"
      by (rule set_drop_subset_set_drop) simp
    have here: "Host sr ! i \<in> set (drop i (Host sr))"
      using True by (simp add: Cons_nth_drop_Suc [symmetric])
    have "(\<exists>e. Host_GetZone M h = Inl e) \<or>
          (\<exists>z e. Host_GetZone M h = Inr z \<and> GetRegion M z = Inl e) \<or>
          (\<exists>z region. Host_GetZone M h = Inr z \<and> GetRegion M z = Inr region)"
      by (metis sum.exhaust)
    then consider (nozone) e where "Host_GetZone M h = Inl e"
      | (noregion) z e where "Host_GetZone M h = Inr z" "GetRegion M z = Inl e"
      | (both) z region where "Host_GetZone M h = Inr z" "GetRegion M z = Inr region"
      by blast
    then show ?thesis
    proof cases
      case nozone
      from "1.prems" True f nozone have r: "normalizeHostIds_from M (i + 1) sr = (None, sr')"
        by (simp add: normalizeHostIds_from.simps [of M i sr])
      note ih = "1.IH"(1) [OF True f nozone r]
      from ih have keep: "Host sr' ! i = Host sr ! i" by simp
      have e_i: "host_entry_ok M (Host sr ! i) (Host sr' ! i) (set (Zone sr')) (set (Region sr'))"
        unfolding host_entry_ok_def using f nozone keep by auto
      from ih have "\<forall>j. i + 1 \<le> j \<and> j < length (Host sr) \<longrightarrow>
          host_entry_ok M (Host sr ! j) (Host sr' ! j) (set (Zone sr')) (set (Region sr'))" by blast
      from e_i this have all: "\<forall>j. i \<le> j \<and> j < length (Host sr) \<longrightarrow>
          host_entry_ok M (Host sr ! j) (Host sr' ! j) (set (Zone sr')) (set (Region sr'))"
        by (rule extend_from_Suc)
      from ih obtain zs where zs: "Zone sr' = Zone sr @ zs"
        "\<forall>y\<in>set zs. host_zone_ok M (drop (i + 1) (Host sr)) y (set (Region sr'))" by blast
      from zs(2) dropsub have "\<forall>y\<in>set zs. host_zone_ok M (drop i (Host sr)) y (set (Region sr'))"
        using host_zone_ok_mono [OF _ dropsub subset_refl] by blast
      with zs(1) all ih show ?thesis by simp
    next
      case noregion
      from "1.prems" True f noregion have r: "normalizeHostIds_from M (i + 1) sr = (None, sr')"
        by (simp add: normalizeHostIds_from.simps [of M i sr])
      note ih = "1.IH"(2) [OF True f noregion r]
      from ih have keep: "Host sr' ! i = Host sr ! i" by simp
      have e_i: "host_entry_ok M (Host sr ! i) (Host sr' ! i) (set (Zone sr')) (set (Region sr'))"
        unfolding host_entry_ok_def using f noregion keep by auto
      from ih have "\<forall>j. i + 1 \<le> j \<and> j < length (Host sr) \<longrightarrow>
          host_entry_ok M (Host sr ! j) (Host sr' ! j) (set (Zone sr')) (set (Region sr'))" by blast
      from e_i this have all: "\<forall>j. i \<le> j \<and> j < length (Host sr) \<longrightarrow>
          host_entry_ok M (Host sr ! j) (Host sr' ! j) (set (Zone sr')) (set (Region sr'))"
        by (rule extend_from_Suc)
      from ih obtain zs where zs: "Zone sr' = Zone sr @ zs"
        "\<forall>y\<in>set zs. host_zone_ok M (drop (i + 1) (Host sr)) y (set (Region sr'))" by blast
      from zs(2) dropsub have "\<forall>y\<in>set zs. host_zone_ok M (drop i (Host sr)) y (set (Region sr'))"
        using host_zone_ok_mono [OF _ dropsub subset_refl] by blast
      with zs(1) all ih show ?thesis by simp
    next
      case both
      let ?Z1 = "if \<not> IsInStringArray (zone_Id z) (Zone sr)
                 then Zone sr @ [zone_Id z] else Zone sr"
      let ?R1 = "if \<not> IsInStringArray (region_Id region) (Region sr)
                 then Region sr @ [region_Id region] else Region sr"
      let ?sr1 = "sr\<lparr>Host := (Host sr)[i := host_Id h], Zone := ?Z1, Region := ?R1\<rparr>"
      from "1.prems" True f both have r: "normalizeHostIds_from M (i + 1) ?sr1 = (None, sr')"
        by (simp add: normalizeHostIds_from.simps [of M i sr])
      note ih = "1.IH"(3) [OF True f both r]
      have reg1: "set (Region sr) \<subseteq> set ?R1" "region_Id region \<in> set ?R1"
        by (auto simp: IsInStringArray_def)
      have zone1: "zone_Id z \<in> set ?Z1" by (auto simp: IsInStringArray_def)
      from ih have sub: "set ?R1 \<subseteq> set (Region sr')" by simp
      from ih obtain zs where zs: "Zone sr' = ?Z1 @ zs"
        "\<forall>y\<in>set zs. host_zone_ok M (drop (i + 1) ((Host sr)[i := host_Id h])) y (set (Region sr'))"
        by auto
      have dr: "drop (i + 1) ((Host sr)[i := host_Id h]) = drop (i + 1) (Host sr)" by simp
      from zs(1) zone1 have zin: "zone_Id z \<in> set (Zone sr')" by auto
      from ih True have at_i: "Host sr' ! i = host_Id h" by simp
      have e_i: "host_entry_ok M (Host sr ! i) (Host sr' ! i) (set (Zone sr')) (set (Region sr'))"
        unfolding host_entry_ok_def using f both at_i reg1 sub zin by blast
      from ih have "\<forall>j. i + 1 \<le> j \<and> j < length (Host sr) \<longrightarrow>
          host_entry_ok M (Host sr ! j) (Host sr' ! j) (set (Zone sr')) (set (Region sr'))" by simp
      from e_i this have all: "\<forall>j. i \<le> j \<and> j < length (Host sr) \<longrightarrow>
          host_entry_ok M (Host sr ! j) (Host sr' ! j) (set (Zone sr')) (set (Region sr'))"
        by (rule extend_from_Suc)
      have new: "host_zone_ok M (drop i (Host sr)) (zone_Id z) (set (Region sr'))"
        unfolding host_zone_ok_def using here f both reg1 sub by blast
      from zs(2) have old: "\<forall>y\<in>set zs. host_zone_ok M (drop i (Host sr)) y (set (Region sr'))"
        unfolding dr using host_zone_ok_mono [OF _ dropsub subset_refl] by blast
      have "\<exists>zs'. Zone sr' = Zone sr @ zs' \<and>
          (\<forall>y\<in>set zs'. host_zone_ok M (drop i (Host sr)) y (set (Region sr')))"
      proof (cases "IsInStringArray (zone_Id z) (Zone sr)")
        case True
        with zs(1) old show ?thesis by auto
      next
        case False
        with zs(1) have "Zone sr' = Zone sr @ (zone_Id z # zs)" by simp
        moreover from new old have "\<forall>y\<in>set (zone_Id z # zs).
            host_zone_ok M (drop i (Host sr)) y (set (Region sr'))" by simp
        ultimately show ?thesis by blast
      qed
      moreover from ih have "\<forall>j<i. Host sr' ! j = Host sr ! j" by simp
      moreover from ih have "length (Host sr') = length (Host sr)" by simp
      ultimately show ?thesis using all reg1 sub by blast
    qed
  qed
qed



lemma host_loop_err:
  "i \<le> k \<Longrightarrow> k < length (Host sr) \<Longrightarrow>
   (\<forall>j. i \<le> j \<and> j < k \<longrightarrow> (\<exists>h. Host_FetchByIdOrName M (Host sr ! j) = Inr h)) \<Longrightarrow>
   Host_FetchByIdOrName M (Host sr ! k) = Inl e \<Longrightarrow>
   fst (normalizeHostIds_from M i sr) = Some (lookup_error ''Host '' (Host sr ! k) e)"
proof (induction M i sr rule: normalizeHostIds_from.induct)
  case (1 M i sr)
  from "1.prems" have lt: "i < length (Host sr)" by simp
  show ?case
  proof (cases "k = i")
    case True
    with "1.prems" lt show ?thesis
      by (simp add: normalizeHostIds_from.simps [of M i sr] lookup_error_def)
  next
    case False
    with "1.prems" have ik: "i < k" by simp
    with "1.prems" obtain h where f: "Host_FetchByIdOrName M (Host sr ! i) = Inr h"
      by auto
    have rest: "i + 1 \<le> k" "k < length (Host sr)"
      "\<forall>j. i + 1 \<le> j \<and> j < k \<longrightarrow> (\<exists>h. Host_FetchByIdOrName M (Host sr ! j) = Inr h)"
      using ik "1.prems" by simp_all
    have "(\<exists>e. Host_GetZone M h = Inl e) \<or>
          (\<exists>z e. Host_GetZone M h = Inr z \<and> GetRegion M z = Inl e) \<or>
          (\<exists>z region. Host_GetZone M h = Inr z \<and> GetRegion M z = Inr region)"
      by (metis sum.exhaust)
    then consider (nozone) e' where "Host_GetZone M h = Inl e'"
      | (noregion) z e' where "Host_GetZone M h = Inr z" "GetRegion M z = Inl e'"
      | (both) z region where "Host_GetZone M h = Inr z" "GetRegion M z = Inr region"
      by blast
    then show ?thesis
    proof cases
      case nozone
      have step: "normalizeHostIds_from M i sr = normalizeHostIds_from M (i + 1) sr"
        using lt f nozone by (simp add: normalizeHostIds_from.simps [of M i sr])
      from "1.IH"(1) [OF lt f nozone rest "1.prems"(4)] show ?thesis by (simp add: step)
    next
      case noregion
      have step: "normalizeHostIds_from M i sr = normalizeHostIds_from M (i + 1) sr"
        using lt f noregion by (simp add: normalizeHostIds_from.simps [of M i sr])
      from "1.IH"(2) [OF lt f noregion rest "1.prems"(4)] show ?thesis by (simp add: step)
    next
      case both
      let ?sr1 = "sr\<lparr>Host := (Host sr)[i := host_Id h],
                     Zone := (if \<not> IsInStringArray (zone_Id z) (Zone sr)
                              then Zone sr @ [zone_Id z] else Zone sr),
                     Region := (if \<not> IsInStringArray (region_Id region) (Region sr)
                                then Region sr @ [region_Id region] else Region sr)\<rparr>"
      have step: "normalizeHostIds_from M i sr = normalizeHostIds_from M (i + 1) ?sr1"
        using lt f both by (simp add: normalizeHostIds_from.simps [of M i sr])
      have nth: "Host ?sr1 ! j = Host sr ! j" if "i < j" for j using that by simp
      have "fst (normalizeHostIds_from M (i + 1) ?sr1) =
              Some (lookup_error ''Host '' (Host ?sr1 ! k) e)"
      proof (rule "1.IH"(3) [OF lt f both])
        show "i + 1 \<le> k" using ik by simp
        show "k < length (Host ?sr1)" using "1.prems" by simp
        show "\<forall>j. i + 1 \<le> j \<and> j < k \<longrightarrow>
            (\<exists>h. Host_FetchByIdOrName M (Host ?sr1 ! j) = Inr h)"
          using "1.prems"(3) by (simp add: nth)
        show "Host_FetchByIdOrName M (Host ?sr1 ! k) = Inl e"
          using "1.prems"(4) ik by (simp add: nth)
      qed
      with ik show ?thesis by (simp add: step nth)
    qed
  qed
qed

lemma host_loop_fetched:
  "normalizeHostIds_from M i sr = (None, sr') \<Longrightarrow> i \<le> j \<Longrightarrow> j < length (Host sr) \<Longrightarrow>
   \<exists>h. Host_FetchByIdOrName M (Host sr ! j) = Inr h"
  using host_loop_none [of M i sr sr'] unfolding host_entry_ok_def by blast

lemma region_loop_entries:
  "normalizeRegionIds_from M i sr = (None, sr') \<Longrightarrow>
   length (Region sr') = length (Region sr) \<and>
   (\<forall>j<i. Region sr' ! j = Region sr ! j) \<and>
   (\<forall>j. i \<le> j \<and> j < length (Region sr) \<longrightarrow> region_entry_ok M (Region sr ! j) (Region sr' ! j)) \<and>
   Force sr' = Force sr \<and> FullSync sr' = FullSync sr \<and> DeepSync sr' = DeepSync sr \<and>
   Resources sr' = Resources sr"
proof (induction M i sr rule: normalizeRegionIds_from.induct)
  case (1 M i sr)
  show ?case
  proof (cases "i < length (Region sr)")
    case False
    with "1.prems" show ?thesis by (auto simp: normalizeRegionIds_from.simps [of M i sr])
  next
    case True
    with "1.prems" obtain obj where f: "Cloudregion_FetchByIdOrName M (Region sr ! i) = Inr obj"
      by (cases "Cloudregion_FetchByIdOrName M (Region sr ! i)")
         (auto simp: normalizeRegionIds_from.simps [of M i sr] split: if_splits)
    let ?sr1 = "sr\<lparr>Region := (Region sr)[i := region_Id obj]\<rparr>"
    from "1.prems" True f have r: "normalizeRegionIds_from M (i + 1) ?sr1 = (None, sr')"
      by (simp add: normalizeRegionIds_from.simps [of M i sr])
    note ih = "1.IH" [OF True f r]
    from ih have len: "length (Region sr') = length (Region sr)" by simp
    from ih True have at_i: "Region sr' ! i = region_Id obj" by simp
    from ih have before: "\<forall>j<i. Region sr' ! j = Region sr ! j" by simp
    have "region_entry_ok M (Region sr ! i) (Region sr' ! i)"
      unfolding region_entry_ok_def using f at_i by simp
    moreover from ih have "\<forall>j. i + 1 \<le> j \<and> j < length (Region sr) \<longrightarrow>
        region_entry_ok M (Region sr ! j) (Region sr' ! j)" by simp
    ultimately have all: "\<forall>j. i \<le> j \<and> j < length (Region sr) \<longrightarrow>
        region_entry_ok M (Region sr ! j) (Region sr' ! j)"
      by (rule extend_from_Suc)
    from ih have "Force sr' = Force sr \<and> FullSync sr' = FullSync sr \<and> DeepSync sr' = DeepSync sr \<and>
      Resources sr' = Resources sr" by simp
    with len before all show ?thesis by blast
  qed
qed

lemma zone_region_ok_mono:
  "zone_region_ok M xs y \<Longrightarrow> set xs \<subseteq> set xs' \<Longrightarrow> zone_region_ok M xs' y"
  unfolding zone_region_ok_def by blast

lemma host_region_ok_mono:
  "host_region_ok M xs y \<Longrightarrow> set xs \<subseteq> set xs' \<Longrightarrow> host_region_ok M xs' y"
  unfolding host_region_ok_def by blast

lemma zone_loop_regions:
  "normalizeZoneIds_from M i sr = (None, sr') \<Longrightarrow>
   (\<exists>rs. Region sr' = Region sr @ rs \<and> (\<forall>y\<in>set rs. zone_region_ok M (drop i (Zone sr)) y)) \<and>
   Force sr' = Force sr \<and> FullSync sr' = FullSync sr \<and> DeepSync sr' = DeepSync sr \<and>
   Resources sr' = Resources sr"
proof (induction M i sr rule: normalizeZoneIds_from.induct)
  case (1 M i sr)
  show ?case
  proof (cases "i < length (Zone sr)")
    case False
    with "1.prems" show ?thesis by (auto simp: normalizeZoneIds_from.simps [of M i sr])
  next
    case True
    with "1.prems" obtain z where f: "Zone_FetchByIdOrName M (Zone sr ! i) = Inr z"
      by (cases "Zone_FetchByIdOrName M (Zone sr ! i)")
         (auto simp: normalizeZoneIds_from.simps [of M i sr] split: if_splits)
    have dropsub: "set (drop (i + 1) (Zone sr)) \<subseteq> set (drop i (Zone sr))"
      by (rule set_drop_subset_set_drop) simp
    from True have here: "Zone sr ! i \<in> set (drop i (Zone sr))"
      by (simp add: Cons_nth_drop_Suc [symmetric])
    show ?thesis
    proof (cases "GetRegion M z")
      case (Inl e)
      from "1.prems" True f Inl have r: "normalizeZoneIds_from M (i + 1) sr = (None, sr')"
        by (simp add: normalizeZoneIds_from.simps [of M i sr])
      note ih = "1.IH"(1) [OF True f Inl r]
      from ih obtain rs where rs: "Region sr' = Region sr @ rs"
        "\<forall>y\<in>set rs. zone_region_ok M (drop (i + 1) (Zone sr)) y" by blast
      from rs(2) dropsub have "\<forall>y\<in>set rs. zone_region_ok M (drop i (Zone sr)) y"
        using zone_region_ok_mono by blast
      with rs(1) ih show ?thesis by blast
    next
      case (Inr region)
      let ?sr1 = "sr\<lparr>Zone := (Zone sr)[i := zone_Id z],
                     Region := (if \<not> IsInStringArray (region_Id region) (Region sr)
                                then Region sr @ [region_Id region] else Region sr)\<rparr>"
      from "1.prems" True f Inr have r: "normalizeZoneIds_from M (i + 1) ?sr1 = (None, sr')"
        by (simp add: normalizeZoneIds_from.simps [of M i sr])
      note ih = "1.IH"(2) [OF True f Inr r]
      from ih obtain rs where rs: "Region sr' = Region ?sr1 @ rs"
        "\<forall>y\<in>set rs. zone_region_ok M (drop (i + 1) (Zone ?sr1)) y" by blast
      have d: "drop (i + 1) (Zone ?sr1) = drop (i + 1) (Zone sr)" by simp
      from rs(2) dropsub have tail: "\<forall>y\<in>set rs. zone_region_ok M (drop i (Zone sr)) y"
        unfolding d using zone_region_ok_mono by blast
      have new: "zone_region_ok M (drop i (Zone sr)) (region_Id region)"
        unfolding zone_region_ok_def using here f Inr by blast
      obtain rs0 where rs0: "Region ?sr1 = Region sr @ rs0" "set rs0 \<subseteq> {region_Id region}"
        by (cases "IsInStringArray (region_Id region) (Region sr)") auto
      from rs(1) rs0(1) have "Region sr' = Region sr @ (rs0 @ rs)" by simp
      moreover from rs0(2) new tail have "\<forall>y\<in>set (rs0 @ rs). zone_region_ok M (drop i (Zone sr)) y"
        by auto
      moreover from ih have "Force sr' = Force sr \<and> FullSync sr' = FullSync sr \<and>
        DeepSync sr' = DeepSync sr \<and> Resources sr' = Resources sr" by simp
      ultimately show ?thesis by blast
    qed
  qed
qed

lemma host_loop_regions:
  "normalizeHostIds_from M i sr = (None, sr') \<Longrightarrow>
   (\<exists>rs. Region sr' = Region sr @ rs \<and> (\<forall>y\<in>set rs. host_region_ok M (drop i (Host sr)) y)) \<and>
   Force sr' = Force sr \<and> FullSync sr' = FullSync sr \<and> DeepSync sr' = DeepSync sr \<and>
   Resources sr' = Resources sr"
proof (induction M i sr rule: normalizeHostIds_from.induct)
  case (1 M i sr)
  show ?case
  proof (cases "i < length (Host sr)")
    case False
    with "1.prems" show ?thesis by (auto simp: normalizeHostIds_from.simps [of M i sr])
  next
    case True
    with "1.prems" obtain h where f: "Host_FetchByIdOrName M (Host sr ! i) = Inr h"
      by (cases "Host_FetchByIdOrName M (Host sr ! i)")
         (auto simp: normalizeHostIds_from.simps [of M i sr] split: if_splits)
    have dropsub: "set (drop (i + 1) (Host sr)) \<subseteq> set (drop i (Host sr))"
      by (rule set_drop_subset_set_drop) simp
    from True have here: "Host sr ! i \<in> set (drop i (Host sr))"
      by (simp add: Cons_nth_drop_Suc [symmetric])
    have skip: ?thesis if r: "normalizeHostIds_from M (i + 1) sr = (None, sr')"
      and ih: "(\<exists>rs. Region sr' = Region sr @ rs \<and>
                 (\<forall>y\<in>set rs. host_region_ok M (drop (i + 1) (Host sr)) y)) \<and>
               Force sr' = Force sr \<and> FullSync sr' = FullSync sr \<and> DeepSync sr' = DeepSync sr \<and>
               Resources sr' = Resources sr"
    proof -
      from ih obtain rs where rs: "Region sr' = Region sr @ rs"
        "\<forall>y\<in>set rs. host_region_ok M (drop (i + 1) (Host sr)) y" by blast
      from rs(2) dropsub have "\<forall>y\<in>set rs. host_region_ok M (drop i (Host sr)) y"
        using host_region_ok_mono by blast
      with rs(1) ih show ?thesis by blast
    qed
    show ?thesis
    proof (cases "Host_GetZone M h")
      case (Inl e)
      from "1.prems" True f Inl have r: "normalizeHostIds_from M (i + 1) sr = (None, sr')"
        by (simp add: normalizeHostIds_from.simps [of M i sr])
      from skip [OF r "1.IH"(1) [OF True f Inl r]] show ?thesis .
    next
      case (Inr z)
      show ?thesis
      proof (cases "GetRegion M z")
        case (Inl e)
        from "1.prems" True f Inr Inl have r: "normalizeHostIds_from M (i + 1) sr = (None, sr')"
          by (simp add: normalizeHostIds_from.simps [of M i sr])
        from skip [OF r "1.IH"(2) [OF True f Inr Inl r]] show ?thesis .
      next
        case (Inr region)
        let ?sr1 = "sr\<lparr>Host := (Host sr)[i := host_Id h],
                       Zone := (if \<not> IsInStringArray (zone_Id z) (Zone sr)
                                then Zone sr @ [zone_Id z] else Zone sr),
                       Region := (if \<not> IsInStringArray (region_Id region) (Region sr)
                                  then Region sr @ [region_Id region] else Region sr)\<rparr>"
        from "1.prems" True f \<open>Host_GetZone M h = Inr z\<close> Inr
        have r: "normalizeHostIds_from M (i + 1) ?sr1 = (None, sr')"
          by (simp add: normalizeHostIds_from.simps [of M i sr])
        note ih = "1.IH"(3) [OF True f \<open>Host_GetZone M h = Inr z\<close> Inr r]
        from ih obtain rs where rs: "Region sr' = Region ?sr1 @ rs"
          "\<forall>y\<in>set rs. host_region_ok M (drop (i + 1) (Host ?sr1)) y" by blast
        have d: "drop (i + 1) (Host ?sr1) = drop (i + 1) (Host sr)" by simp
        from rs(2) dropsub have tail: "\<forall>y\<in>set rs. host_region_ok M (drop i (Host sr)) y"
          unfolding d using host_region_ok_mono by blast
        have new: "host_region_ok M (drop i (Host sr)) (region_Id region)"
          unfolding host_region_ok_def using here f \<open>Host_GetZone M h = Inr z\<close> Inr by blast
        obtain rs0 where rs0: "Region ?sr1 = Region sr @ rs0" "set rs0 \<subseteq> {region_Id region}"
          by (cases "IsInStringArray (region_Id region) (Region sr)") auto
        from rs(1) rs0(1) have "Region sr' = Region sr @ (rs0 @ rs)" by simp
        moreover from rs0(2) new tail
        have "\<forall>y\<in>set (rs0 @ rs). host_region_ok M (drop i (Host sr)) y" by auto
        moreover from ih have "Force sr' = Force sr \<and> FullSync sr' = FullSync sr \<and>
          DeepSync sr' = DeepSync sr \<and> Resources sr' = Resources sr" by simp
        ultimately show ?thesis by blast
      qed
    qed
  qed
qed


subsection \<open>The three stages of Normalize\<close>

lemma Normalize_regions_stage:
  "(if length (Region sr) > 0 then normalizeRegionIds M sr else (None, sr\<lparr>Region := []\<rparr>)) = (None, sr1) \<Longrightarrow>
   (\<forall>x\<in>set (Region sr). \<exists>r. Cloudregion_FetchByIdOrName M x = Inr r) \<and>
   Zone sr1 = Zone sr \<and> Host sr1 = Host sr"
  using region_loop_none [of M 0 sr sr1]
  by (auto simp: normalizeRegionIds_def in_set_conv_nth split: if_splits)

lemma Normalize_zones_stage:
  "(if length (Zone sr) > 0 then normalizeZoneIds M sr else (None, sr\<lparr>Zone := []\<rparr>)) = (None, sr2) \<Longrightarrow>
   Host sr2 = Host sr \<and> length (Zone sr2) = length (Zone sr) \<and>
   set (Region sr) \<subseteq> set (Region sr2) \<and>
   (\<forall>j<length (Zone sr). zone_entry_ok M (Zone sr ! j) (Zone sr2 ! j) (set (Region sr2)))"
  using zone_loop_none [of M 0 sr sr2]
  by (auto simp: normalizeZoneIds_def split: if_splits)

lemma Normalize_hosts_stage:
  "(if length (Host sr) > 0 then normalizeHostIds M sr else (None, sr\<lparr>Host := []\<rparr>)) = (None, sr3) \<Longrightarrow>
   length (Host sr3) = length (Host sr) \<and>
   set (Region sr) \<subseteq> set (Region sr3) \<and>
   (\<exists>zs. Zone sr3 = Zone sr @ zs \<and>
      (\<forall>y\<in>set zs. host_zone_ok M (Host sr) y (set (Region sr3)))) \<and>
   (\<forall>j<length (Host sr). host_entry_ok M (Host sr ! j) (Host sr3 ! j) (set (Zone sr3)) (set (Region sr3)))"
  using host_loop_none [of M 0 sr sr3]
  by (auto simp: normalizeHostIds_def split: if_splits)

lemma Normalize_None_stages:
  assumes "Normalize M sr = (None, sr')"
  obtains sr1 sr2 where
    "(if length (Region sr) > 0 then normalizeRegionIds M sr else (None, sr\<lparr>Region := []\<rparr>)) = (None, sr1)"
    "(if length (Zone sr1) > 0 then normalizeZoneIds M sr1 else (None, sr1\<lparr>Zone := []\<rparr>)) = (None, sr2)"
    "(if length (Host sr2) > 0 then normalizeHostIds M sr2 else (None, sr2\<lparr>Host := []\<rparr>)) = (None, sr')"
  using assms unfolding Normalize_def
  by (auto split: prod.splits option.splits)


lemma Normalize_regions_entries:
  "(if length (Region sr) > 0 then normalizeRegionIds M sr else (None, sr\<lparr>Region := []\<rparr>)) = (None, sr1) \<Longrightarrow>
   length (Region sr1) = length (Region sr) \<and>
   (\<forall>j<length (Region sr). region_entry_ok M (Region sr ! j) (Region sr1 ! j)) \<and>
   Force sr1 = Force sr \<and> FullSync sr1 = FullSync sr \<and> DeepSync sr1 = DeepSync sr \<and>
   Resources sr1 = Resources sr"
  using region_loop_entries [of M 0 sr sr1]
  by (auto simp: normalizeRegionIds_def split: if_splits)

lemma Normalize_zones_regions:
  "(if length (Zone sr) > 0 then normalizeZoneIds M sr else (None, sr\<lparr>Zone := []\<rparr>)) = (None, sr2) \<Longrightarrow>
   (\<exists>rs. Region sr2 = Region sr @ rs \<and> (\<forall>y\<in>set rs. zone_region_ok M (Zone sr) y)) \<and>
   Force sr2 = Force sr \<and> FullSync sr2 = FullSync sr \<and> DeepSync sr2 = DeepSync sr \<and>
   Resources sr2 = Resources sr"
  using zone_loop_regions [of M 0 sr sr2]
  by (auto simp: normalizeZoneIds_def split: if_splits)

lemma Normalize_hosts_regions:
  "(if length (Host sr) > 0 then normalizeHostIds M sr else (None, sr\<lparr>Host := []\<rparr>)) = (None, sr3) \<Longrightarrow>
   (\<exists>rs. Region sr3 = Region sr @ rs \<and> (\<forall>y\<in>set rs. host_region_ok M (Host sr) y)) \<and>
   Force sr3 = Force sr \<and> FullSync sr3 = FullSync sr \<and> DeepSync sr3 = DeepSync sr \<and>
   Resources sr3 = Resources sr"
  using host_loop_regions [of M 0 sr sr3]
  by (auto simp: normalizeHostIds_def split: if_splits)

lemma region_loop_total:
  "(\<forall>j. i \<le> j \<and> j < length (Region sr) \<longrightarrow>
      (\<exists>obj. Cloudregion_FetchByIdOrName M (Region sr ! j) = Inr obj)) \<Longrightarrow>
   fst (normalizeRegionIds_from M i sr) = None"
proof (induction M i sr rule: normalizeRegionIds_from.induct)
  case (1 M i sr)
  show ?case
  proof (cases "i < length (Region sr)")
    case False
    then show ?thesis by (simp add: normalizeRegionIds_from.simps [of M i sr])
  next
    case True
    with "1.prems" obtain obj where f: "Cloudregion_FetchByIdOrName M (Region sr ! i) = Inr obj"
      by auto
    let ?sr1 = "sr\<lparr>Region := (Region sr)[i := region_Id obj]\<rparr>"
    have "fst (normalizeRegionIds_from M (i + 1) ?sr1) = None"
      using "1.prems" by (intro "1.IH" [OF True f]) simp
    then show ?thesis using True f by (simp add: normalizeRegionIds_from.simps [of M i sr])
  qed
qed

lemma zone_loop_total:
  "(\<forall>j. i \<le> j \<and> j < length (Zone sr) \<longrightarrow>
      (\<exists>z. Zone_FetchByIdOrName M (Zone sr ! j) = Inr z)) \<Longrightarrow>
   fst (normalizeZoneIds_from M i sr) = None"
proof (induction M i sr rule: normalizeZoneIds_from.induct)
  case (1 M i sr)
  show ?case
  proof (cases "i < length (Zone sr)")
    case False
    then show ?thesis by (simp add: normalizeZoneIds_from.simps [of M i sr])
  next
    case True
    with "1.prems" obtain z where f: "Zone_FetchByIdOrName M (Zone sr ! i) = Inr z"
      by auto
    show ?thesis
    proof (cases "GetRegion M z")
      case (Inl e)
      have "fst (normalizeZoneIds_from M (i + 1) sr) = None"
        using "1.prems" by (intro "1.IH"(1) [OF True f Inl]) simp
      then show ?thesis using True f Inl by (simp add: normalizeZoneIds_from.simps [of M i sr])
    next
      case (Inr region)
      let ?sr1 = "sr\<lparr>Zone := (Zone sr)[i := zone_Id z],
                     Region := (if \<not> IsInStringArray (region_Id region) (Region sr)
                                then Region sr @ [region_Id region] else Region sr)\<rparr>"
      have "fst (normalizeZoneIds_from M (i + 1) ?sr1) = None"
        using "1.prems" by (intro "1.IH"(2) [OF True f Inr]) simp
      then show ?thesis using True f Inr by (simp add: normalizeZoneIds_from.simps [of M i sr])
    qed
  qed
qed

lemma host_loop_total:
  "(\<forall>j. i \<le> j \<and> j < length (Host sr) \<longrightarrow>
      (\<exists>h. Host_FetchByIdOrName M (Host sr ! j) = Inr h)) \<Longrightarrow>
   fst (normalizeHostIds_from M i sr) = None"
proof (induction M i sr rule: normalizeHostIds_from.induct)
  case (1 M i sr)
  show ?case
  proof (cases "i < length (Host sr)")
    case False
    then show ?thesis by (simp add: normalizeHostIds_from.simps [of M i sr])
  next
    case True
    with "1.prems" obtain h where f: "Host_FetchByIdOrName M (Host sr ! i) = Inr h"
      by auto
    have rest: "\<forall>j. i + 1 \<le> j \<and> j < length (Host sr) \<longrightarrow>
        (\<exists>h. Host_FetchByIdOrName M (Host sr ! j) = Inr h)"
      using "1.prems" by simp
    have "(\<exists>e. Host_GetZone M h = Inl e) \<or>
          (\<exists>z e. Host_GetZone M h = Inr z \<and> GetRegion M z = Inl e) \<or>
          (\<exists>z region. Host_GetZone M h = Inr z \<and> GetRegion M z = Inr region)"
      by (metis sum.exhaust)
    then consider (nozone) e' where "Host_GetZone M h = Inl e'"
      | (noregion) z e' where "Host_GetZone M h = Inr z" "GetRegion M z = Inl e'"
      | (both) z region where "Host_GetZone M h = Inr z" "GetRegion M z = Inr region"
      by blast
    then show ?thesis
    proof cases
      case nozone
      from "1.IH"(1) [OF True f nozone rest] show ?thesis
        using True f nozone by (simp add: normalizeHostIds_from.simps [of M i sr])
    next
      case noregion
      from "1.IH"(2) [OF True f noregion rest] show ?thesis
        using True f noregion by (simp add: normalizeHostIds_from.simps [of M i sr])
    next
      case both
      let ?sr1 = "sr\<lparr>Host := (Host sr)[i := host_Id h],
                     Zone := (if \<not> IsInStringArray (zone_Id z) (Zone sr)
                              then Zone sr @ [zone_Id z] else Zone sr),
                     Region := (if \<not> IsInStringArray (region_Id region) (Region sr)
                                then Region sr @ [region_Id region] else Region sr)\<rparr>"
      have "fst (normalizeHostIds_from M (i + 1) ?sr1) = None"
        using "1.prems" by (intro "1.IH"(3) [OF True f both]) simp
      then show ?thesis
        using True f both by (simp add: normalizeHostIds_from.simps [of M i sr])
    qed
  qed
qed

lemmas ex_managers_defs = ex_managers_def ex_zone_def ex_host_def ex_scope_def
  table_managers_def fetch_by_id_def
  fetch_by_id_or_name_def GetRegion_def GetCloudRegionId_def IsInStringArray_def

lemmas Normalize_defs = Normalize_def normalizeRegionIds_def normalizeZoneIds_def
  normalizeHostIds_def normalizeRegionIds_from.simps normalizeZoneIds_from.simps
  normalizeHostIds_from.simps

lemma regions_stage_total:
  assumes "\<forall>x\<in>set (Region sr). \<exists>r. Cloudregion_FetchByIdOrName M x = Inr r"
  obtains sr1 where
    "(if length (Region sr) > 0 then normalizeRegionIds M sr else (None, sr\<lparr>Region := []\<rparr>)) = (None, sr1)"
    "Zone sr1 = Zone sr" "Host sr1 = Host sr"
proof -
  have "fst (normalizeRegionIds_from M 0 sr) = None"
    using assms by (intro region_loop_total) simp
  then have "fst (if length (Region sr) > 0 then normalizeRegionIds M sr
                  else (None, sr\<lparr>Region := []\<rparr>)) = None"
    by (simp add: normalizeRegionIds_def)
  then obtain sr1 where st: "(if length (Region sr) > 0 then normalizeRegionIds M sr
      else (None, sr\<lparr>Region := []\<rparr>)) = (None, sr1)"
    by (metis prod.collapse)
  from Normalize_regions_stage [OF st] st that show ?thesis by blast
qed

lemma zones_stage_total:
  assumes "\<forall>x\<in>set (Zone sr). \<exists>z. Zone_FetchByIdOrName M x = Inr z"
  obtains sr2 where
    "(if length (Zone sr) > 0 then normalizeZoneIds M sr else (None, sr\<lparr>Zone := []\<rparr>)) = (None, sr2)"
    "Host sr2 = Host sr"
proof -
  have "fst (normalizeZoneIds_from M 0 sr) = None"
    using assms by (intro zone_loop_total) simp
  then have "fst (if length (Zone sr) > 0 then normalizeZoneIds M sr
                  else (None, sr\<lparr>Zone := []\<rparr>)) = None"
    by (simp add: normalizeZoneIds_def)
  then obtain sr2 where st: "(if length (Zone sr) > 0 then normalizeZoneIds M sr
      else (None, sr\<lparr>Zone := []\<rparr>)) = (None, sr2)"
    by (metis prod.collapse)
  from Normalize_zones_stage [OF st] st that show ?thesis by blast
qed

lemma hosts_stage_total:
  assumes "\<forall>x\<in>set (Host sr). \<exists>h. Host_FetchByIdOrName M x = Inr h"
  obtains sr3 where
    "(if length (Host sr) > 0 then normalizeHostIds M sr else (None, sr\<lparr>Host := []\<rparr>)) = (None, sr3)"
proof -
  have "fst (normalizeHostIds_from M 0 sr) = None"
    using assms by (intro host_loop_total) simp
  then have "fst (if length (Host sr) > 0 then normalizeHostIds M sr
                  else (None, sr\<lparr>Host := []\<rparr>)) = None"
    by (simp add: normalizeHostIds_def)
  then obtain sr3 where "(if length (Host sr) > 0 then normalizeHostIds M sr
      else (None, sr\<lparr>Host := []\<rparr>)) = (None, sr3)"
    by (metis prod.collapse)
  with that show ?thesis by blast
qed

lemma Normalize_None_iff:
  "fst (Normalize M sr) = None \<longleftrightarrow>
     (\<forall>x\<in>set (Region sr). \<exists>r. Cloudregion_FetchByIdOrName M x = Inr r) \<and>
     (\<forall>x\<in>set (Zone sr). \<exists>z. Zone_FetchByIdOrName M x = Inr z) \<and>
     (\<forall>x\<in>set (Host sr). \<exists>h. Host_FetchByIdOrName M x = Inr h)"
proof
  assume "fst (Normalize M sr) = None"
  then obtain sr' where ok: "Normalize M sr = (None, sr')" by (metis prod.collapse)
  from ok obtain sr1 sr2 where
    st1: "(if length (Region sr) > 0 then normalizeRegionIds M sr
           else (None, sr\<lparr>Region := []\<rparr>)) = (None, sr1)" and
    st2: "(if length (Zone sr1) > 0 then normalizeZoneIds M sr1
           else (None, sr1\<lparr>Zone := []\<rparr>)) = (None, sr2)" and
    st3: "(if length (Host sr2) > 0 then normalizeHostIds M sr2
           else (None, sr2\<lparr>Host := []\<rparr>)) = (None, sr')"
    by (rule Normalize_None_stages)
  note s1 = Normalize_regions_stage [OF st1]
  note s2 = Normalize_zones_stage [OF st2]
  note s3 = Normalize_hosts_stage [OF st3]
  have z: "\<exists>z. Zone_FetchByIdOrName M x = Inr z" if "x \<in> set (Zone sr)" for x
  proof -
    from that s1 obtain j where "j < length (Zone sr1)" "Zone sr1 ! j = x"
      by (auto simp: in_set_conv_nth)
    with s2 have "zone_entry_ok M x (Zone sr2 ! j) (set (Region sr2))" by auto
    then show ?thesis unfolding zone_entry_ok_def by blast
  qed
  have h: "\<exists>h. Host_FetchByIdOrName M x = Inr h" if "x \<in> set (Host sr)" for x
  proof -
    from that s1 s2 obtain j where "j < length (Host sr2)" "Host sr2 ! j = x"
      by (auto simp: in_set_conv_nth)
    with s3 have "host_entry_ok M x (Host sr' ! j) (set (Zone sr')) (set (Region sr'))" by auto
    then show ?thesis unfolding host_entry_ok_def by blast
  qed
  from s1 z h show "(\<forall>x\<in>set (Region sr). \<exists>r. Cloudregion_FetchByIdOrName M x = Inr r) \<and>
     (\<forall>x\<in>set (Zone sr). \<exists>z. Zone_FetchByIdOrName M x = Inr z) \<and>
     (\<forall>x\<in>set (Host sr). \<exists>h. Host_FetchByIdOrName M x = Inr h)" by blast
next
  assume a: "(\<forall>x\<in>set (Region sr). \<exists>r. Cloudregion_FetchByIdOrName M x = Inr r) \<and>
     (\<forall>x\<in>set (Zone sr). \<exists>z. Zone_FetchByIdOrName M x = Inr z) \<and>
     (\<forall>x\<in>set (Host sr). \<exists>h. Host_FetchByIdOrName M x = Inr h)"
  then obtain sr1 where st1: "(if length (Region sr) > 0 then normalizeRegionIds M sr
      else (None, sr\<lparr>Region := []\<rparr>)) = (None, sr1)" and e1: "Zone sr1 = Zone sr" "Host sr1 = Host sr"
    using regions_stage_total [of sr M] by blast
  from a e1 have "\<forall>x\<in>set (Zone sr1). \<exists>z. Zone_FetchByIdOrName M x = Inr z" by simp
  then obtain sr2 where st2: "(if length (Zone sr1) > 0 then normalizeZoneIds M sr1
      else (None, sr1\<lparr>Zone := []\<rparr>)) = (None, sr2)" and e2: "Host sr2 = Host sr1"
    using zones_stage_total [of sr1 M] by blast
  from a e1 e2 have "\<forall>x\<in>set (Host sr2). \<exists>h. Host_FetchByIdOrName M x = Inr h" by simp
  then obtain sr3 where st3: "(if length (Host sr2) > 0 then normalizeHostIds M sr2
      else (None, sr2\<lparr>Host := []\<rparr>)) = (None, sr3)"
    using hosts_stage_total [of sr2 M] by blast
  show "fst (Normalize M sr) = None"
    by (simp only: Normalize_def st1 st2 st3 prod.case option.case fst_conv)
qed

lemma Normalize_region_failure:
  assumes k: "k < length (Region sr)"
    and before: "\<forall>j<k. \<exists>r. Cloudregion_FetchByIdOrName M (Region sr ! j) = Inr r"
    and fail: "Cloudregion_FetchByIdOrName M (Region sr ! k) = Inl e"
  shows "fst (Normalize M sr) = Some (lookup_error ''Region '' (Region sr ! k) e) \<and>
         Zone (snd (Normalize M sr)) = Zone sr \<and> Host (snd (Normalize M sr)) = Host sr"
proof -
  from before have b: "\<forall>j. 0 \<le> j \<and> j < k \<longrightarrow>
      (\<exists>obj. Cloudregion_FetchByIdOrName M (Region sr ! j) = Inr obj)" by simp
  note l = region_loop_err [OF le0 k b fail]
  obtain err sr1 where r: "normalizeRegionIds_from M 0 sr = (err, sr1)"
    by (cases "normalizeRegionIds_from M 0 sr")
  with l have err: "err = Some (lookup_error ''Region '' (Region sr ! k) e)"
    and same: "Zone sr1 = Zone sr" "Host sr1 = Host sr" by simp_all
  from k have st1: "(if length (Region sr) > 0 then normalizeRegionIds M sr
      else (None, sr\<lparr>Region := []\<rparr>)) = (err, sr1)"
    by (auto simp: normalizeRegionIds_def r)
  have "Normalize M sr = (err, sr1)"
    by (simp only: Normalize_def st1 prod.case option.case err)
  with err same show ?thesis by simp
qed

lemma Normalize_zone_failure:
  assumes regions: "\<forall>x\<in>set (Region sr). \<exists>r. Cloudregion_FetchByIdOrName M x = Inr r"
    and k: "k < length (Zone sr)"
    and before: "\<forall>j<k. \<exists>z. Zone_FetchByIdOrName M (Zone sr ! j) = Inr z"
    and fail: "Zone_FetchByIdOrName M (Zone sr ! k) = Inl e"
  shows "fst (Normalize M sr) = Some (lookup_error ''Zone '' (Zone sr ! k) e) \<and>
         Host (snd (Normalize M sr)) = Host sr"
proof -
  from regions obtain sr1 where st1: "(if length (Region sr) > 0 then normalizeRegionIds M sr
      else (None, sr\<lparr>Region := []\<rparr>)) = (None, sr1)" and e1: "Zone sr1 = Zone sr" "Host sr1 = Host sr"
    using regions_stage_total [of sr M] by blast
  from k e1 have k1: "k < length (Zone sr1)" by simp
  from before e1 have b: "\<forall>j. 0 \<le> j \<and> j < k \<longrightarrow>
      (\<exists>z. Zone_FetchByIdOrName M (Zone sr1 ! j) = Inr z)" by simp
  from fail e1 have f1: "Zone_FetchByIdOrName M (Zone sr1 ! k) = Inl e" by simp
  note l = zone_loop_err [OF le0 k1 b f1]
  obtain err sr2 where r: "normalizeZoneIds_from M 0 sr1 = (err, sr2)"
    by (cases "normalizeZoneIds_from M 0 sr1")
  with l have err: "err = Some (lookup_error ''Zone '' (Zone sr1 ! k) e)"
    and same: "Host sr2 = Host sr1" by simp_all
  from k1 have st2: "(if length (Zone sr1) > 0 then normalizeZoneIds M sr1
      else (None, sr1\<lparr>Zone := []\<rparr>)) = (err, sr2)"
    by (auto simp: normalizeZoneIds_def r)
  have "Normalize M sr = (err, sr2)"
    by (simp only: Normalize_def st1 st2 prod.case option.case err)
  with err same e1 show ?thesis by simp
qed

lemma Normalize_host_failure:
  assumes regions: "\<forall>x\<in>set (Region sr). \<exists>r. Cloudregion_FetchByIdOrName M x = Inr r"
    and zones: "\<forall>x\<in>set (Zone sr). \<exists>z. Zone_FetchByIdOrName M x = Inr z"
    and k: "k < length (Host sr)"
    and before: "\<forall>j<k. \<exists>h. Host_FetchByIdOrName M (Host sr ! j) = Inr h"
    and fail: "Host_FetchByIdOrName M (Host sr ! k) = Inl e"
  shows "fst (Normalize M sr) = Some (lookup_error ''Host '' (Host sr ! k) e)"
proof -
  from regions obtain sr1 where st1: "(if length (Region sr) > 0 then normalizeRegionIds M sr
      else (None, sr\<lparr>Region := []\<rparr>)) = (None, sr1)" and e1: "Zone sr1 = Zone sr" "Host sr1 = Host sr"
    using regions_stage_total [of sr M] by blast
  from zones e1 have "\<forall>x\<in>set (Zone sr1). \<exists>z. Zone_FetchByIdOrName M x = Inr z" by simp
  then obtain sr2 where st2: "(if length (Zone sr1) > 0 then normalizeZoneIds M sr1
      else (None, sr1\<lparr>Zone := []\<rparr>)) = (None, sr2)" and e2: "Host sr2 = Host sr1"
    using zones_stage_total [of sr1 M] by blast
  from k e1 e2 have k2: "k < length (Host sr2)" by simp
  from before e1 e2 have b: "\<forall>j. 0 \<le> j \<and> j < k \<longrightarrow>
      (\<exists>h. Host_FetchByIdOrName M (Host sr2 ! j) = Inr h)" by simp
  from fail e1 e2 have f2: "Host_FetchByIdOrName M (Host sr2 ! k) = Inl e" by simp
  note l = host_loop_err [OF le0 k2 b f2]
  obtain err sr3 where r: "normalizeHostIds_from M 0 sr2 = (err, sr3)"
    by (cases "normalizeHostIds_from M 0 sr2")
  with l have err: "err = Some (lookup_error ''Host '' (Host sr2 ! k) e)" by simp
  from k2 have st3: "(if length (Host sr2) > 0 then normalizeHostIds M sr2
      else (None, sr2\<lparr>Host := []\<rparr>)) = (err, sr3)"
    by (auto simp: normalizeHostIds_def r)
  have "Normalize M sr = (err, sr3)"
    by (simp only: Normalize_def st1 st2 st3 prod.case option.case err)
  with err e1 e2 show ?thesis by simp
qed

subsection \<open>The comparator\<close>

lemma take_match_None:
  "take_match key k rs = None \<Longrightarrow> \<forall>r\<in>set rs. key r \<noteq> k"
  by (induction rs) (auto split: if_splits option.splits)

lemma take_match_Some:
  "take_match key k rs = Some (m, rest) \<Longrightarrow>
   key m = k \<and> mset rs = add_mset m (mset rest) \<and> length rs = Suc (length rest)"
  by (induction rs arbitrary: rest) (auto split: if_splits option.splits)

lemma pair_up_partition:
  "pair_up kl kr ls rs = (removed, commonLocal, commonRemote, added) \<Longrightarrow>
   mset removed + mset commonLocal = mset ls \<and>
   mset added + mset commonRemote = mset rs \<and>
   length commonLocal = length commonRemote \<and>
   (\<forall>i<length commonLocal. kl (commonLocal ! i) = kr (commonRemote ! i)) \<and>
   (\<forall>l\<in>set removed. \<forall>r\<in>set added. kl l \<noteq> kr r)"
proof (induction ls arbitrary: rs removed commonLocal commonRemote added)
  case Nil
  then show ?case by simp
next
  case (Cons l ls)
  show ?case
  proof (cases "take_match kr (kl l) rs")
    case None
    obtain rm cl cr ad where p: "pair_up kl kr ls rs = (rm, cl, cr, ad)"
      by (cases "pair_up kl kr ls rs") auto
    with Cons.prems None have eqs: "removed = l # rm" "commonLocal = cl" "commonRemote = cr"
      "added = ad" by simp_all
    note ih = Cons.IH [OF p]
    from ih have "set_mset (mset ad) \<subseteq> set_mset (mset rs)"
      by (metis mset_subset_eq_add_left set_mset_mono)
    then have sub: "set ad \<subseteq> set rs" by simp
    from take_match_None [OF None] sub have "\<forall>r\<in>set ad. kl l \<noteq> kr r" by auto
    with ih show ?thesis unfolding eqs by auto
  next
    case (Some a)
    obtain r rest where a: "a = (r, rest)" by (cases a)
    obtain rm cl cr ad where p: "pair_up kl kr ls rest = (rm, cl, cr, ad)"
      by (cases "pair_up kl kr ls rest") auto
    with Cons.prems Some a have eqs: "removed = rm" "commonLocal = l # cl"
      "commonRemote = r # cr" "added = ad" by simp_all
    note ih = Cons.IH [OF p]
    note tm = take_match_Some [OF Some [unfolded a]]
    have nth: "\<forall>i<length (l # cl). kl ((l # cl) ! i) = kr ((r # cr) ! i)"
    proof (intro allI impI)
      fix i assume "i < length (l # cl)"
      then show "kl ((l # cl) ! i) = kr ((r # cr) ! i)"
        using ih tm by (cases i) auto
    qed
    from ih tm have "mset rm + mset (l # cl) = mset (l # ls)"
      and "mset ad + mset (r # cr) = mset rs" by simp_all
    with ih nth show ?thesis unfolding eqs by simp
  qed
qed

lemma CompareSets_Inr:
  "CompareSets kl kr dbSet extSet = Inr p \<longleftrightarrow>
     (\<forall>l\<in>set dbSet. kl l \<noteq> None) \<and> (\<forall>r\<in>set extSet. kr r \<noteq> None) \<and>
     p = pair_up (\<lambda>l. the (kl l)) (\<lambda>r. the (kr r)) dbSet extSet"
  by (auto simp: CompareSets_def list_ex_iff)

subsection \<open>The loops of the zone synchronizer\<close>

















section \<open>Claims\<close>




text \<open>
  C2. For an enabled cloudprovider whose cloudaccount is found and enabled: when the
  provider may not sync (\<open>CanSync\<close> is false) and the request does not force,
  \<open>PerformSync\<close> answers an InvalidStatus error and changes nothing; when the request
  carries \<open>force\<close>, \<open>StartSyncCloudProviderInfoTask\<close> is called whatever \<open>CanSync\<close> and
  the sync status say, and, the task runtime creating the task, the sync task is added
  and the answer is that of scheduling it.
\<close>

theorem C2_perform_sync_admission:
  assumes "cp_Enabled self" and "GetCloudaccount self db = Inr account" and "ca_Enabled account"
  shows "(\<not> CanSync E self \<and> \<not> Force input \<longrightarrow>
            PerformSync E self input db =
              (Some (InvalidStatusError ''Unable to synchronize frequently''), self, db)) \<and>
         (Force input \<longrightarrow>
            (\<exists>syncRange. Force syncRange \<and>
               PerformSync E self input db =
                 StartSyncCloudProviderInfoTask E self (Some syncRange) [] db)) \<and>
         (Force input \<and> NewTask_err E = None \<longrightarrow>
            (\<exists>syncRange self' db'.
               PerformSync E self input db = (ScheduleRun_err E, self', db') \<and>
               tasks db' = tasks db @
                 [\<lparr>task_name = ''CloudProviderSyncInfoTask'', task_obj = cp_Id self,
                   task_sync_range = Some syncRange, task_parent = []\<rparr>]))"
proof -
  define syncRange where "syncRange =
     (if FullSync input \<or> length (Region input) > 0 \<or> length (Zone input) > 0 \<or>
         length (Host input) > 0 \<or> length (Resources input) > 0
      then input\<lparr>DeepSync := True\<rparr> else input)"
  have force: "Force syncRange = Force input" by (simp add: syncRange_def)
  have rej: "\<not> CanSync E self \<and> \<not> Force input \<longrightarrow>
       PerformSync E self input db =
         (Some (InvalidStatusError ''Unable to synchronize frequently''), self, db)"
    using assms by (simp add: PerformSync_def)
  have start: "Force input \<Longrightarrow> PerformSync E self input db =
       StartSyncCloudProviderInfoTask E self (Some syncRange) [] db"
    using assms by (simp add: PerformSync_def syncRange_def)
  have sched: "\<exists>syncRange self' db'.
               PerformSync E self input db = (ScheduleRun_err E, self', db') \<and>
               tasks db' = tasks db @
                 [\<lparr>task_name = ''CloudProviderSyncInfoTask'', task_obj = cp_Id self,
                   task_sync_range = Some syncRange, task_parent = []\<rparr>]"
    if f: "Force input" and n: "NewTask_err E = None"
  proof -
    obtain err self' db' where r: "StartSyncCloudProviderInfoTask E self (Some syncRange) [] db
        = (err, self', db')" by (cases "StartSyncCloudProviderInfoTask E self (Some syncRange) [] db")
    from StartSync_tasks [OF n r] r start [OF f] show ?thesis by auto
  qed
  from rej start sched force show ?thesis by blast
qed

theorem C2_witness:
  "\<not> CanSync ex_env (ex_provider ''syncing'') \<and>
   PerformSync ex_env (ex_provider ''syncing'') ex_range (ex_db ''syncing'' ''syncing'' ''idle'') =
     (Some (InvalidStatusError ''Unable to synchronize frequently''), ex_provider ''syncing'',
      ex_db ''syncing'' ''syncing'' ''idle'') \<and>
   fst (PerformSync ex_env (ex_provider ''syncing'') (ex_range\<lparr>Force := True\<rparr>)
          (ex_db ''syncing'' ''syncing'' ''idle'')) = None \<and>
   map task_obj (tasks (snd (snd (PerformSync ex_env (ex_provider ''syncing'')
          (ex_range\<lparr>Force := True\<rparr>) (ex_db ''syncing'' ''syncing'' ''idle''))))) = [''p1'']"
  using C2_perform_sync_admission [of "ex_provider ''syncing''" "ex_db ''syncing'' ''syncing'' ''idle''"
      "ex_account ''syncing''" ex_env ex_range]
    C2_perform_sync_admission [of "ex_provider ''syncing''" "ex_db ''syncing'' ''syncing'' ''idle''"
      "ex_account ''syncing''" ex_env "ex_range\<lparr>Force := True\<rparr>"]
  by (simp add: ex_defs GetCloudaccount_def PerformSync_def StartSyncCloudProviderInfoTask_def
      markStartSync_def save_account_def save_provider_def sync_status_defs Let_def)

text \<open>
  C3. \<open>markEndSyncWithLock\<close> changes a cloudprovider's sync status only from a non-idle
  status to idle, setting the last-sync-end time, and only when every cloudprovider-region
  row of the provider is idle; when some region of the provider is not idle the provider is
  left as it was. It does make the transition when the provider is not idle, all its
  regions are idle and the storage answers without error. After the locked block the
  owning cloudaccount's \<open>MarkEndSyncWithLock\<close> is called on the tables so updated, and
  its answer is the answer of the call.
\<close>

theorem C3_mark_end_sync_gated_on_regions:
  assumes run: "markEndSyncWithLock E self db = (err, self', db')"
  shows "(cp_SyncStatus self' \<noteq> cp_SyncStatus self \<longrightarrow>
            (\<forall>r\<in>set (cloudproviderregions db). cpr_CloudproviderId r = cp_Id self \<longrightarrow>
               cpr_SyncStatus r = CLOUD_PROVIDER_SYNC_STATUS_IDLE) \<and>
            cp_SyncStatus self \<noteq> CLOUD_PROVIDER_SYNC_STATUS_IDLE \<and>
            self' = self\<lparr>cp_SyncStatus := CLOUD_PROVIDER_SYNC_STATUS_IDLE,
                         cp_LastSyncEndAt := UtcNow E\<rparr>) \<and>
         ((\<exists>r\<in>set (cloudproviderregions db). cpr_CloudproviderId r = cp_Id self \<and>
              cpr_SyncStatus r \<noteq> CLOUD_PROVIDER_SYNC_STATUS_IDLE) \<longrightarrow> self' = self) \<and>
         (cp_SyncStatus self \<noteq> CLOUD_PROVIDER_SYNC_STATUS_IDLE \<and>
          (\<forall>r\<in>set (cloudproviderregions db). cpr_CloudproviderId r = cp_Id self \<longrightarrow>
               cpr_SyncStatus r = CLOUD_PROVIDER_SYNC_STATUS_IDLE) \<and>
          CountWithError_err E = None \<and> db_Update_err E (cp_Id self) = None \<longrightarrow>
            self' = self\<lparr>cp_SyncStatus := CLOUD_PROVIDER_SYNC_STATUS_IDLE,
                         cp_LastSyncEndAt := UtcNow E\<rparr>) \<and>
         (db_Update_err E (cp_Id self) = None \<and> GetCloudaccount self db = Inr account \<longrightarrow>
            (err, db') =
              ca_MarkEndSyncWithLock E account (if self' = self then db else save_provider self' db))"
proof -
  consider (idle) "cp_SyncStatus self = CLOUD_PROVIDER_SYNC_STATUS_IDLE"
    | (busy) "cp_SyncStatus self \<noteq> CLOUD_PROVIDER_SYNC_STATUS_IDLE"
        "getSyncStatus2 E self db \<noteq> CLOUD_PROVIDER_SYNC_STATUS_IDLE"
    | (fault) e where "cp_SyncStatus self \<noteq> CLOUD_PROVIDER_SYNC_STATUS_IDLE"
        "getSyncStatus2 E self db = CLOUD_PROVIDER_SYNC_STATUS_IDLE"
        "db_Update_err E (cp_Id self) = Some e"
    | (ended) "cp_SyncStatus self \<noteq> CLOUD_PROVIDER_SYNC_STATUS_IDLE"
        "getSyncStatus2 E self db = CLOUD_PROVIDER_SYNC_STATUS_IDLE"
        "db_Update_err E (cp_Id self) = None"
    by (cases "db_Update_err E (cp_Id self)") auto
  then show ?thesis
  proof cases
    case idle
    then have l: "markEndSync_locked E self db = (None, self, db)"
      by (simp add: markEndSync_locked_def)
    from run have s: "self' = self"
      by (auto simp: markEndSyncWithLock_def l split: sum.splits prod.splits)
    from run have p: "GetCloudaccount self db = Inr account \<Longrightarrow>
        (err, db') = ca_MarkEndSyncWithLock E account db"
      by (auto simp: markEndSyncWithLock_def l split: sum.splits prod.splits)
    from idle s p show ?thesis by auto
  next
    case busy
    then have l: "markEndSync_locked E self db = (None, self, db)"
      by (simp add: markEndSync_locked_def)
    from run have s: "self' = self"
      by (auto simp: markEndSyncWithLock_def l split: sum.splits prod.splits)
    from run have p: "GetCloudaccount self db = Inr account \<Longrightarrow>
        (err, db') = ca_MarkEndSyncWithLock E account db"
      by (auto simp: markEndSyncWithLock_def l split: sum.splits prod.splits)
    from busy(2) have g: "\<not> (CountWithError_err E = None \<and>
        (\<forall>r\<in>set (cloudproviderregions db). cpr_CloudproviderId r = cp_Id self \<longrightarrow>
           cpr_SyncStatus r = CLOUD_PROVIDER_SYNC_STATUS_IDLE))"
      by (simp add: getSyncStatus2_idle)
    from s p g show ?thesis by auto
  next
    case fault
    then have l: "markEndSync_locked E self db = (Some (Wrap e ''markEndSync''), self, db)"
      by (simp add: markEndSync_locked_def markEndSync_def)
    from run have s: "self' = self"
      by (auto simp: markEndSyncWithLock_def l)
    from fault(2) have g: "\<forall>r\<in>set (cloudproviderregions db). cpr_CloudproviderId r = cp_Id self \<longrightarrow>
           cpr_SyncStatus r = CLOUD_PROVIDER_SYNC_STATUS_IDLE"
      by (simp add: getSyncStatus2_idle)
    from s g fault(3) show ?thesis by auto
  next
    case ended
    define p where "p = self\<lparr>cp_SyncStatus := CLOUD_PROVIDER_SYNC_STATUS_IDLE,
                         cp_LastSyncEndAt := UtcNow E\<rparr>"
    from ended have l: "markEndSync_locked E self db = (None, p, save_provider p db)"
      by (simp add: markEndSync_locked_def markEndSync_def p_def Let_def)
    from run have s: "self' = p"
      by (auto simp: markEndSyncWithLock_def l split: sum.splits prod.splits)
    have "cp_SyncStatus p = CLOUD_PROVIDER_SYNC_STATUS_IDLE" by (simp add: p_def)
    with ended(1) have ne: "p \<noteq> self" by auto
    have acc: "GetCloudaccount self' db = GetCloudaccount self db"
      by (simp add: GetCloudaccount_def s p_def split: option.splits)
    from run have pr: "GetCloudaccount self db = Inr account \<Longrightarrow>
        (err, db') = ca_MarkEndSyncWithLock E account (save_provider p db)"
      by (auto simp: markEndSyncWithLock_def l acc split: sum.splits prod.splits)
    from ended(2) have g: "\<forall>r\<in>set (cloudproviderregions db). cpr_CloudproviderId r = cp_Id self \<longrightarrow>
           cpr_SyncStatus r = CLOUD_PROVIDER_SYNC_STATUS_IDLE"
      by (simp add: getSyncStatus2_idle)
    show ?thesis unfolding s p_def [symmetric]
      using ne pr g ended(1) by auto
  qed
qed



theorem C3_witness:
  "markEndSyncWithLock ex_env (ex_provider ''syncing'') (ex_db ''syncing'' ''syncing'' ''idle'') =
     (None, (ex_provider ''idle'')\<lparr>cp_LastSyncEndAt := 7\<rparr>,
      (ex_db ''syncing'' ''idle'' ''idle'')
        \<lparr>cloudaccounts := [(ex_account ''idle'')\<lparr>ca_LastSyncEndAt := 7\<rparr>],
         cloudproviders := [(ex_provider ''idle'')\<lparr>cp_LastSyncEndAt := 7\<rparr>]\<rparr>) \<and>
   markEndSyncWithLock ex_env (ex_provider ''syncing'') (ex_db ''syncing'' ''syncing'' ''syncing'') =
     (None, ex_provider ''syncing'', ex_db ''syncing'' ''syncing'' ''syncing'')"
proof -
  have run1: "markEndSyncWithLock ex_env (ex_provider ''syncing'')
      (ex_db ''syncing'' ''syncing'' ''idle'') =
     (None, (ex_provider ''idle'')\<lparr>cp_LastSyncEndAt := 7\<rparr>,
      (ex_db ''syncing'' ''idle'' ''idle'')
        \<lparr>cloudaccounts := [(ex_account ''idle'')\<lparr>ca_LastSyncEndAt := 7\<rparr>],
         cloudproviders := [(ex_provider ''idle'')\<lparr>cp_LastSyncEndAt := 7\<rparr>]\<rparr>)"
    by (simp add: ex_defs markEndSyncWithLock_def markEndSync_locked_def markEndSync_def
      getSyncStatus2_def GetCloudaccount_def ex_gated_MarkEndSyncWithLock_def
      save_provider_def save_account_def sync_status_defs Let_def)
  have run2: "markEndSyncWithLock ex_env (ex_provider ''syncing'')
      (ex_db ''syncing'' ''syncing'' ''syncing'') =
     (None, ex_provider ''syncing'', ex_db ''syncing'' ''syncing'' ''syncing'')"
    by (simp add: ex_defs markEndSyncWithLock_def markEndSync_locked_def markEndSync_def
      getSyncStatus2_def GetCloudaccount_def ex_gated_MarkEndSyncWithLock_def
      save_provider_def save_account_def sync_status_defs Let_def)
  from run1 run2 C3_mark_end_sync_gated_on_regions [OF run1, of "ex_account ''syncing''"]
    C3_mark_end_sync_gated_on_regions [OF run2, of "ex_account ''syncing''"]
  show ?thesis by blast
qed

text \<open>
  C4, as amended. When \<open>Normalize\<close> returns without error, the three lists are these and
  nothing else changes. \<open>Region\<close>: the listed identifiers, each replaced by the id of its
  region, followed only by region ids added for a listed zone whose region was found or
  for a listed host whose zone and that zone's region were found. \<open>Zone\<close>: the listed
  identifiers in their places, followed only by zone ids added for a listed host whose
  zone and that zone's region were found; a listed zone whose region was found is replaced
  by its id and the region's id is in \<open>Region\<close>; a listed zone whose region could not be
  fetched stays as supplied. \<open>Host\<close>: the listed identifiers in their places; a listed host
  whose zone and that zone's region were found is replaced by its id, the zone's id is in
  \<open>Zone\<close> and the region's id in \<open>Region\<close>; a listed host whose zone or whose zone's
  region could not be fetched stays as supplied. So nothing is added for an entry that was
  skipped.
\<close>

theorem C4_normalize_closed_upward:
  assumes ok: "Normalize M sr = (None, sr')"
  shows "length (Region sr) \<le> length (Region sr') \<and>
         (\<forall>j<length (Region sr). region_entry_ok M (Region sr ! j) (Region sr' ! j)) \<and>
         (\<forall>j. length (Region sr) \<le> j \<and> j < length (Region sr') \<longrightarrow>
            zone_region_ok M (Zone sr) (Region sr' ! j) \<or>
            host_region_ok M (Host sr) (Region sr' ! j)) \<and>
         length (Zone sr) \<le> length (Zone sr') \<and>
         (\<forall>j<length (Zone sr).
            zone_entry_ok M (Zone sr ! j) (Zone sr' ! j) (set (Region sr'))) \<and>
         (\<forall>j. length (Zone sr) \<le> j \<and> j < length (Zone sr') \<longrightarrow>
            host_zone_ok M (Host sr) (Zone sr' ! j) (set (Region sr'))) \<and>
         length (Host sr') = length (Host sr) \<and>
         (\<forall>j<length (Host sr).
            host_entry_ok M (Host sr ! j) (Host sr' ! j) (set (Zone sr')) (set (Region sr'))) \<and>
         Force sr' = Force sr \<and> FullSync sr' = FullSync sr \<and> DeepSync sr' = DeepSync sr \<and>
         Resources sr' = Resources sr"
proof -
  from ok obtain sr1 sr2 where
    st1: "(if length (Region sr) > 0 then normalizeRegionIds M sr
           else (None, sr\<lparr>Region := []\<rparr>)) = (None, sr1)" and
    st2: "(if length (Zone sr1) > 0 then normalizeZoneIds M sr1
           else (None, sr1\<lparr>Zone := []\<rparr>)) = (None, sr2)" and
    st3: "(if length (Host sr2) > 0 then normalizeHostIds M sr2
           else (None, sr2\<lparr>Host := []\<rparr>)) = (None, sr')"
    by (rule Normalize_None_stages)
  note s1 = Normalize_regions_stage [OF st1]
  note s2 = Normalize_zones_stage [OF st2]
  note s3 = Normalize_hosts_stage [OF st3]
  note e1 = Normalize_regions_entries [OF st1]
  note e2 = Normalize_zones_regions [OF st2]
  note e3 = Normalize_hosts_regions [OF st3]
  from s1 s2 have hosts: "Host sr2 = Host sr" and zones: "Zone sr1 = Zone sr" by simp_all
  from e1 have len1: "length (Region sr1) = length (Region sr)" by simp
  from e2 zones obtain rs2 where rs2: "Region sr2 = Region sr1 @ rs2"
    "\<forall>y\<in>set rs2. zone_region_ok M (Zone sr) y" by auto
  from e3 hosts obtain rs3 where rs3: "Region sr' = Region sr2 @ rs3"
    "\<forall>y\<in>set rs3. host_region_ok M (Host sr) y" by auto
  from rs2(1) rs3(1) have reg: "Region sr' = Region sr1 @ (rs2 @ rs3)" by simp
  from s3 hosts obtain zs where zs: "Zone sr' = Zone sr2 @ zs"
    "\<forall>y\<in>set zs. host_zone_ok M (Host sr) y (set (Region sr'))" by auto
  from s2 zones have len2: "length (Zone sr2) = length (Zone sr)" by simp
  from s3 have sub: "set (Region sr2) \<subseteq> set (Region sr')" by blast
  have R_len: "length (Region sr) \<le> length (Region sr')"
    using reg len1 by simp
  have R_listed: "region_entry_ok M (Region sr ! j) (Region sr' ! j)"
    if "j < length (Region sr)" for j
  proof -
    from that len1 reg have "Region sr' ! j = Region sr1 ! j" by (simp add: nth_append)
    with e1 that show ?thesis by simp
  qed
  have R_added: "zone_region_ok M (Zone sr) (Region sr' ! j) \<or>
      host_region_ok M (Host sr) (Region sr' ! j)"
    if "length (Region sr) \<le> j" "j < length (Region sr')" for j
  proof -
    from that len1 reg have "Region sr' ! j = (rs2 @ rs3) ! (j - length (Region sr))"
      "j - length (Region sr) < length (rs2 @ rs3)"
      by (simp_all add: nth_append)
    then have "Region sr' ! j \<in> set (rs2 @ rs3)" by (metis nth_mem)
    with rs2(2) rs3(2) show ?thesis by auto
  qed
  have Z_len: "length (Zone sr) \<le> length (Zone sr')"
    using zs(1) len2 by simp
  have Z_listed: "zone_entry_ok M (Zone sr ! j) (Zone sr' ! j) (set (Region sr'))"
    if "j < length (Zone sr)" for j
  proof -
    from that len2 zs(1) have "Zone sr' ! j = Zone sr2 ! j" by (simp add: nth_append)
    moreover from s2 zones that
    have "zone_entry_ok M (Zone sr ! j) (Zone sr2 ! j) (set (Region sr2))" by simp
    ultimately show ?thesis using sub zone_entry_ok_mono by simp
  qed
  have Z_added: "host_zone_ok M (Host sr) (Zone sr' ! j) (set (Region sr'))"
    if "length (Zone sr) \<le> j" "j < length (Zone sr')" for j
  proof -
    from that len2 zs(1) have "Zone sr' ! j = zs ! (j - length (Zone sr))"
      "j - length (Zone sr) < length zs"
      by (simp_all add: nth_append)
    then have "Zone sr' ! j \<in> set zs" by (metis nth_mem)
    with zs(2) show ?thesis by simp
  qed
  from s3 hosts have H_len: "length (Host sr') = length (Host sr)" by simp
  from s3 hosts have H_listed: "\<forall>j<length (Host sr).
      host_entry_ok M (Host sr ! j) (Host sr' ! j) (set (Zone sr')) (set (Region sr'))"
    by simp
  from e1 e2 e3 have frame: "Force sr' = Force sr \<and> FullSync sr' = FullSync sr \<and>
      DeepSync sr' = DeepSync sr \<and> Resources sr' = Resources sr" by simp
  from R_len R_listed R_added Z_len Z_listed Z_added H_len H_listed frame
  show ?thesis by blast
qed

theorem C4_witness:
  "Normalize ex_managers (ex_scope [] [''zoneA''] [''hostA'']) =
     (None, ex_scope [''r1''] [''z1''] [''h1'']) \<and>
   zone_entry_ok ex_managers ''zoneA'' ''z1'' {''r1''} \<and>
   host_entry_ok ex_managers ''hostA'' ''h1'' {''z1''} {''r1''}"
proof -
  have run: "Normalize ex_managers (ex_scope [] [''zoneA''] [''hostA'']) =
     (None, ex_scope [''r1''] [''z1''] [''h1''])"
    by (simp add: Normalize_defs ex_managers_defs)
  have ze: "zone_entry_ok ex_managers ''zoneA'' ''z1'' {''r1''}"
    by (simp add: zone_entry_ok_def ex_managers_defs)
  from C4_normalize_closed_upward [OF run]
  have "\<forall>j<length (Host (ex_scope [] [''zoneA''] [''hostA''])).
      host_entry_ok ex_managers (Host (ex_scope [] [''zoneA''] [''hostA'']) ! j)
        (Host (ex_scope [''r1''] [''z1''] [''h1'']) ! j)
        (set (Zone (ex_scope [''r1''] [''z1''] [''h1''])))
        (set (Region (ex_scope [''r1''] [''z1''] [''h1''])))"
    by blast
  then have he: "host_entry_ok ex_managers ''hostA'' ''h1'' {''z1''} {''r1''}"
    by (simp add: ex_scope_def)
  from run ze he show ?thesis by blast
qed

text \<open>
  C4 as stated fails: the host \<open>h2\<close> is stored, its zone \<open>z2\<close> is stored, but the zone's
  region is not. \<open>Normalize\<close> returns without error, the host's id \<open>h2\<close> is in the
  \<open>Host\<close> list, and neither the id of its owning zone is in the \<open>Zone\<close> list nor the id
  of the zone's region in the \<open>Region\<close> list.
\<close>

theorem C4_counterexample:
  "Normalize ex_managers (ex_scope [] [] [''h2'']) = (None, ex_scope [] [] [''h2'']) \<and>
   Host_FetchByIdOrName ex_managers ''h2'' = Inr (ex_host ''h2'' ''hostB'' ''z2'') \<and>
   host_Id (ex_host ''h2'' ''hostB'' ''z2'') = ''h2'' \<and>
   Host_GetZone ex_managers (ex_host ''h2'' ''hostB'' ''z2'') =
     Inr (ex_zone ''z2'' ''zoneB'' ''ext-z2'' ''r-gone'') \<and>
   zone_Id (ex_zone ''z2'' ''zoneB'' ''ext-z2'' ''r-gone'') = ''z2'' \<and>
   zone_CloudregionId (ex_zone ''z2'' ''zoneB'' ''ext-z2'' ''r-gone'') = ''r-gone'' \<and>
   ''h2'' \<in> set (Host (ex_scope [] [] [''h2''])) \<and>
   ''z2'' \<notin> set (Zone (ex_scope [] [] [''h2''])) \<and>
   ''r-gone'' \<notin> set (Region (ex_scope [] [] [''h2'']))"
  by (simp add: Normalize_defs ex_managers_defs)

text \<open>
  C5, as amended. \<open>Normalize\<close> looks the identifiers up in order (regions, then zones,
  then hosts, each list from its first entry) and stops at the first lookup that fails: it
  returns a resource-not-found error naming the identifier when that lookup found no
  record, and the lookup's own error otherwise, and what comes after is left as supplied.
  It returns no error exactly when every listed identifier resolves.
\<close>

theorem C5_normalize_stops_at_first_failed_lookup:
  "(fst (Normalize M sr) = None \<longleftrightarrow>
      (\<forall>x\<in>set (Region sr). \<exists>r. Cloudregion_FetchByIdOrName M x = Inr r) \<and>
      (\<forall>x\<in>set (Zone sr). \<exists>z. Zone_FetchByIdOrName M x = Inr z) \<and>
      (\<forall>x\<in>set (Host sr). \<exists>h. Host_FetchByIdOrName M x = Inr h)) \<and>
   (k < length (Region sr) \<and>
    (\<forall>j<k. \<exists>r. Cloudregion_FetchByIdOrName M (Region sr ! j) = Inr r) \<and>
    Cloudregion_FetchByIdOrName M (Region sr ! k) = Inl e \<longrightarrow>
      fst (Normalize M sr) = Some (lookup_error ''Region '' (Region sr ! k) e) \<and>
      Zone (snd (Normalize M sr)) = Zone sr \<and> Host (snd (Normalize M sr)) = Host sr) \<and>
   ((\<forall>x\<in>set (Region sr). \<exists>r. Cloudregion_FetchByIdOrName M x = Inr r) \<and>
    k < length (Zone sr) \<and>
    (\<forall>j<k. \<exists>z. Zone_FetchByIdOrName M (Zone sr ! j) = Inr z) \<and>
    Zone_FetchByIdOrName M (Zone sr ! k) = Inl e \<longrightarrow>
      fst (Normalize M sr) = Some (lookup_error ''Zone '' (Zone sr ! k) e) \<and>
      Host (snd (Normalize M sr)) = Host sr) \<and>
   ((\<forall>x\<in>set (Region sr). \<exists>r. Cloudregion_FetchByIdOrName M x = Inr r) \<and>
    (\<forall>x\<in>set (Zone sr). \<exists>z. Zone_FetchByIdOrName M x = Inr z) \<and>
    k < length (Host sr) \<and>
    (\<forall>j<k. \<exists>h. Host_FetchByIdOrName M (Host sr ! j) = Inr h) \<and>
    Host_FetchByIdOrName M (Host sr ! k) = Inl e \<longrightarrow>
      fst (Normalize M sr) = Some (lookup_error ''Host '' (Host sr ! k) e)) \<and>
   lookup_error kind x ErrNoRows = ResourceNotFoundError (kind @ x @ '' not found'') \<and>
   (e \<noteq> ErrNoRows \<longrightarrow> lookup_error kind x e = e)"
  using Normalize_None_iff [of M sr] Normalize_region_failure [of k sr M e]
    Normalize_zone_failure [of sr M k e] Normalize_host_failure [of sr M k e]
  by (simp add: lookup_error_def)

theorem C5_witness:
  "Zone_FetchByIdOrName ex_managers ''nozone'' = Inl ErrNoRows \<and>
   fst (Normalize ex_managers (ex_scope [''Region-1''] [''zoneA'', ''nozone''] [''hostB''])) =
     Some (ResourceNotFoundError ''Zone nozone not found'') \<and>
   Host (snd (Normalize ex_managers (ex_scope [''Region-1''] [''zoneA'', ''nozone''] [''hostB'']))) =
     [''hostB''] \<and>
   fst (Normalize ex_managers (ex_scope [''Region-1''] [''zoneA''] [''hostB''])) = None"
proof -
  let ?bad = "ex_scope [''Region-1''] [''zoneA'', ''nozone''] [''hostB'']"
  let ?good = "ex_scope [''Region-1''] [''zoneA''] [''hostB'']"
  have miss: "Zone_FetchByIdOrName ex_managers ''nozone'' = Inl ErrNoRows"
    by (simp add: ex_managers_defs)
  have regions: "\<forall>x\<in>set (Region ?bad). \<exists>r. Cloudregion_FetchByIdOrName ex_managers x = Inr r"
    by (simp add: ex_managers_defs)
  have at: "1 < length (Zone ?bad)" "Zone ?bad ! 1 = ''nozone''"
    by (simp_all add: ex_scope_def)
  have before: "\<forall>j<1. \<exists>z. Zone_FetchByIdOrName ex_managers (Zone ?bad ! j) = Inr z"
    by (simp add: ex_managers_defs)
  from C5_normalize_stops_at_first_failed_lookup [of ex_managers "?bad" 1 ErrNoRows "''Zone ''" "''nozone''"]
    regions at before miss
  have stop: "fst (Normalize ex_managers ?bad) = Some (ResourceNotFoundError (''Zone '' @ ''nozone'' @ '' not found''))"
    and rest: "Host (snd (Normalize ex_managers ?bad)) = Host ?bad"
    by simp_all
  have all: "(\<forall>x\<in>set (Region ?good). \<exists>r. Cloudregion_FetchByIdOrName ex_managers x = Inr r) \<and>
      (\<forall>x\<in>set (Zone ?good). \<exists>z. Zone_FetchByIdOrName ex_managers x = Inr z) \<and>
      (\<forall>x\<in>set (Host ?good). \<exists>h. Host_FetchByIdOrName ex_managers x = Inr h)"
    by (simp add: ex_managers_defs)
  from C5_normalize_stops_at_first_failed_lookup [of ex_managers "?good"] all
  have ok: "fst (Normalize ex_managers ?good) = None"
    by blast
  from stop have stop': "fst (Normalize ex_managers ?bad) =
      Some (ResourceNotFoundError ''Zone nozone not found'')" by simp
  from rest have rest': "Host (snd (Normalize ex_managers ?bad)) = [''hostB'']"
    by (simp add: ex_scope_def)
  from miss stop' rest' ok show ?thesis by blast
qed

text \<open>
  C5 as stated fails: the scope lists the zone identifier \<open>nozone\<close>, which resolves to no
  stored record, but the region name \<open>east\<close> before it is the name of two regions; the
  error returned is that of the region lookup, not a resource-not-found error.
\<close>

theorem C5_counterexample:
  "Zone_FetchByIdOrName ex_managers ''nozone'' = Inl ErrNoRows \<and>
   ''nozone'' \<in> set (Zone (ex_scope [''east''] [''nozone''] [])) \<and>
   Normalize ex_managers (ex_scope [''east''] [''nozone''] []) =
     (Some (OtherError ''duplicate name''), ex_scope [''east''] [''nozone''] [])"
  by (simp add: Normalize_defs ex_managers_defs)





text \<open>
  C7. The comparator partitions both collections: the removed and the common local
  records together are the local records, the added and the common remote records
  together are the remote records, element for element (as multisets, so the counts add
  up; for collections without repeated records each record is in exactly one part); the
  two common lists have the same length and the records at the same index have equal
  keys; no removed record and added record share a key. It returns a partition whenever
  every key can be extracted, and a comparison error otherwise.
\<close>

theorem C7_compare_sets_partition:
  "(CompareSets kl kr L R = Inr (removed, commonLocal, commonRemote, added) \<longrightarrow>
      mset removed + mset commonLocal = mset L \<and>
      mset added + mset commonRemote = mset R \<and>
      length removed + length commonLocal = length L \<and>
      length added + length commonRemote = length R \<and>
      length commonLocal = length commonRemote \<and>
      (\<forall>i<length commonLocal. kl (commonLocal ! i) = kr (commonRemote ! i)) \<and>
      (\<forall>l\<in>set removed. \<forall>r\<in>set added. kl l \<noteq> kr r) \<and>
      (distinct L \<longrightarrow> set removed \<inter> set commonLocal = {} \<and>
                        set removed \<union> set commonLocal = set L) \<and>
      (distinct R \<longrightarrow> set added \<inter> set commonRemote = {} \<and>
                        set added \<union> set commonRemote = set R)) \<and>
   ((\<forall>l\<in>set L. kl l \<noteq> None) \<and> (\<forall>r\<in>set R. kr r \<noteq> None) \<longrightarrow>
      (\<exists>p. CompareSets kl kr L R = Inr p)) \<and>
   ((\<exists>l\<in>set L. kl l = None) \<or> (\<exists>r\<in>set R. kr r = None) \<longrightarrow>
      (\<exists>msg. CompareSets kl kr L R = Inl (ComparisonError msg)))"
proof -
  have part: "mset removed + mset commonLocal = mset L \<and>
      mset added + mset commonRemote = mset R \<and>
      length removed + length commonLocal = length L \<and>
      length added + length commonRemote = length R \<and>
      length commonLocal = length commonRemote \<and>
      (\<forall>i<length commonLocal. kl (commonLocal ! i) = kr (commonRemote ! i)) \<and>
      (\<forall>l\<in>set removed. \<forall>r\<in>set added. kl l \<noteq> kr r) \<and>
      (distinct L \<longrightarrow> set removed \<inter> set commonLocal = {} \<and>
                        set removed \<union> set commonLocal = set L) \<and>
      (distinct R \<longrightarrow> set added \<inter> set commonRemote = {} \<and>
                        set added \<union> set commonRemote = set R)"
    if a: "CompareSets kl kr L R = Inr (removed, commonLocal, commonRemote, added)"
  proof -
    from a have keys: "\<forall>l\<in>set L. kl l \<noteq> None" "\<forall>r\<in>set R. kr r \<noteq> None"
      and p: "pair_up (\<lambda>l. the (kl l)) (\<lambda>r. the (kr r)) L R =
                (removed, commonLocal, commonRemote, added)"
      by (simp_all add: CompareSets_Inr)
    note pp = pair_up_partition [OF p]
    from pp have mL: "mset removed + mset commonLocal = mset L" by simp
    from pp have mR: "mset added + mset commonRemote = mset R" by simp
    from mL have "size (mset removed + mset commonLocal) = size (mset L)" by simp
    then have lL: "length removed + length commonLocal = length L" by simp
    from mR have "size (mset added + mset commonRemote) = size (mset R)" by simp
    then have lR: "length added + length commonRemote = length R" by simp
    from pp have len: "length commonLocal = length commonRemote" by simp
    from mL have sL: "set removed \<union> set commonLocal = set L"
      by (metis mset_append set_append set_mset_mset)
    from mR have sR: "set added \<union> set commonRemote = set R"
      by (metis mset_append set_append set_mset_mset)
    from sL have inL: "set removed \<subseteq> set L" "set commonLocal \<subseteq> set L" by auto
    from sR have inR: "set added \<subseteq> set R" "set commonRemote \<subseteq> set R" by auto
    have al: "\<forall>i<length commonLocal. kl (commonLocal ! i) = kr (commonRemote ! i)"
    proof (intro allI impI)
      fix i assume i: "i < length commonLocal"
      with pp have e: "the (kl (commonLocal ! i)) = the (kr (commonRemote ! i))" by simp
      from i inL keys have "kl (commonLocal ! i) \<noteq> None" by (meson nth_mem subsetD)
      moreover from i len inR keys have "kr (commonRemote ! i) \<noteq> None"
        by (metis nth_mem subsetD)
      ultimately show "kl (commonLocal ! i) = kr (commonRemote ! i)" using e by auto
    qed
    have un: "\<forall>l\<in>set removed. \<forall>r\<in>set added. kl l \<noteq> kr r"
    proof (intro ballI)
      fix l r assume l: "l \<in> set removed" and r: "r \<in> set added"
      with pp have "the (kl l) \<noteq> the (kr r)" by simp
      then show "kl l \<noteq> kr r" by auto
    qed
    have dL: "set removed \<inter> set commonLocal = {}" if "distinct L"
    proof -
      from that mL have "distinct (removed @ commonLocal)"
        by (metis mset_append mset_eq_imp_distinct_iff)
      then show ?thesis by simp
    qed
    have dR: "set added \<inter> set commonRemote = {}" if "distinct R"
    proof -
      from that mR have "distinct (added @ commonRemote)"
        by (metis mset_append mset_eq_imp_distinct_iff)
      then show ?thesis by simp
    qed
    from mL mR lL lR len al un sL sR dL dR show ?thesis by blast
  qed
  have total: "\<exists>p. CompareSets kl kr L R = Inr p"
    if "(\<forall>l\<in>set L. kl l \<noteq> None) \<and> (\<forall>r\<in>set R. kr r \<noteq> None)"
    using that by (simp add: CompareSets_Inr)
  have fails: "\<exists>msg. CompareSets kl kr L R = Inl (ComparisonError msg)"
    if "(\<exists>l\<in>set L. kl l = None) \<or> (\<exists>r\<in>set R. kr r = None)"
    using that by (auto simp: CompareSets_def list_ex_iff)
  from part total fails show ?thesis by blast
qed


theorem C7_witness:
  "ex_cmp [ex_zone ''z1'' ''zoneA'' ''ext-z1'' ''r1'', ex_zone ''z2'' ''zoneB'' ''ext-z2'' ''r1'']
          [ex_ext ''ext-z1'' ''Zone-A2'', ex_ext ''ext-z3'' ''zoneC''] =
     Inr ([ex_zone ''z2'' ''zoneB'' ''ext-z2'' ''r1''], [ex_zone ''z1'' ''zoneA'' ''ext-z1'' ''r1''],
          [ex_ext ''ext-z1'' ''Zone-A2''], [ex_ext ''ext-z3'' ''zoneC'']) \<and>
   length [ex_zone ''z2'' ''zoneB'' ''ext-z2'' ''r1''] +
     length [ex_zone ''z1'' ''zoneA'' ''ext-z1'' ''r1''] =
     length [ex_zone ''z1'' ''zoneA'' ''ext-z1'' ''r1'', ex_zone ''z2'' ''zoneB'' ''ext-z2'' ''r1'']"
proof -
  have run: "CompareSets (\<lambda>z. Some (zone_ExternalId z)) (\<lambda>e. Some (ext_GlobalId e))
      [ex_zone ''z1'' ''zoneA'' ''ext-z1'' ''r1'', ex_zone ''z2'' ''zoneB'' ''ext-z2'' ''r1'']
      [ex_ext ''ext-z1'' ''Zone-A2'', ex_ext ''ext-z3'' ''zoneC''] =
     Inr ([ex_zone ''z2'' ''zoneB'' ''ext-z2'' ''r1''], [ex_zone ''z1'' ''zoneA'' ''ext-z1'' ''r1''],
          [ex_ext ''ext-z1'' ''Zone-A2''], [ex_ext ''ext-z3'' ''zoneC''])"
    by (simp add: CompareSets_def ex_zone_def ex_ext_def)
  from C7_compare_sets_partition [of "\<lambda>z. Some (zone_ExternalId z)" "\<lambda>e. Some (ext_GlobalId e)"
      "[ex_zone ''z1'' ''zoneA'' ''ext-z1'' ''r1'', ex_zone ''z2'' ''zoneB'' ''ext-z2'' ''r1'']"
      "[ex_ext ''ext-z1'' ''Zone-A2'', ex_ext ''ext-z3'' ''zoneC'']"
      "[ex_zone ''z2'' ''zoneB'' ''ext-z2'' ''r1'']" "[ex_zone ''z1'' ''zoneA'' ''ext-z1'' ''r1'']"
      "[ex_ext ''ext-z1'' ''Zone-A2'']" "[ex_ext ''ext-z3'' ''zoneC'']"] run
  show ?thesis unfolding ex_cmp_def by blast
qed




text \<open>
  C9. When the request has \<open>FullSync\<close> set or a non-empty \<open>Region\<close>, \<open>Zone\<close>, \<open>Host\<close> or
  \<open>Resources\<close> list, \<open>PerformSync\<close> starts the sync task with \<open>DeepSync\<close> set to true,
  whatever the caller supplied: the call of \<open>StartSyncCloudProviderInfoTask\<close> gets the
  upgraded range, and every task \<open>PerformSync\<close> creates carries it.
\<close>

theorem C9_perform_sync_forces_deep_sync:
  assumes need: "FullSync input \<or> Region input \<noteq> [] \<or> Zone input \<noteq> [] \<or> Host input \<noteq> [] \<or>
                 Resources input \<noteq> []"
  shows "(cp_Enabled self \<and> GetCloudaccount self db = Inr account \<and> ca_Enabled account \<and>
          (CanSync E self \<or> Force input) \<longrightarrow>
            PerformSync E self input db =
              StartSyncCloudProviderInfoTask E self (Some (input\<lparr>DeepSync := True\<rparr>)) [] db) \<and>
         (PerformSync E self input db = (err, self', db') \<longrightarrow>
            tasks db' = tasks db \<or>
            tasks db' = tasks db @
              [\<lparr>task_name = ''CloudProviderSyncInfoTask'', task_obj = cp_Id self,
                task_sync_range = Some (input\<lparr>DeepSync := True\<rparr>), task_parent = []\<rparr>])"
proof (intro conjI impI)
  assume "cp_Enabled self \<and> GetCloudaccount self db = Inr account \<and> ca_Enabled account \<and>
          (CanSync E self \<or> Force input)"
  with need show "PerformSync E self input db =
      StartSyncCloudProviderInfoTask E self (Some (input\<lparr>DeepSync := True\<rparr>)) [] db"
    by (auto simp: PerformSync_def)
next
  assume res: "PerformSync E self input db = (err, self', db')"
  show "tasks db' = tasks db \<or>
        tasks db' = tasks db @
          [\<lparr>task_name = ''CloudProviderSyncInfoTask'', task_obj = cp_Id self,
            task_sync_range = Some (input\<lparr>DeepSync := True\<rparr>), task_parent = []\<rparr>]"
  proof (cases "PerformSync E self input db =
      StartSyncCloudProviderInfoTask E self (Some (input\<lparr>DeepSync := True\<rparr>)) [] db")
    case True
    with res have st: "StartSyncCloudProviderInfoTask E self (Some (input\<lparr>DeepSync := True\<rparr>)) [] db
        = (err, self', db')" by simp
    show ?thesis
    proof (cases "NewTask_err E")
      case None
      from StartSync_tasks [OF None st] show ?thesis by simp
    next
      case (Some e)
      from StartSync_NewTask_fails [OF Some] st show ?thesis by simp
    qed
  next
    case False
    with need res have "db' = db"
      by (auto simp: PerformSync_def Let_def split: if_splits sum.splits)
    then show ?thesis by simp
  qed
qed

theorem C9_witness:
  "PerformSync ex_env (ex_provider ''idle'') ex_range (ex_db ''idle'' ''idle'' ''idle'') =
     StartSyncCloudProviderInfoTask ex_env (ex_provider ''idle'')
       (Some (ex_range\<lparr>DeepSync := True\<rparr>)) [] (ex_db ''idle'' ''idle'' ''idle'') \<and>
   \<not> DeepSync ex_range \<and>
   map task_sync_range
     (tasks (snd (snd (PerformSync ex_env (ex_provider ''idle'') ex_range
                        (ex_db ''idle'' ''idle'' ''idle''))))) =
     [Some \<lparr>Force = False, FullSync = False, DeepSync = True, Region = [''r1''],
            Zone = [], Host = [], Resources = []\<rparr>]"
  using C9_perform_sync_forces_deep_sync [of ex_range "ex_provider ''idle''"
      "ex_db ''idle'' ''idle'' ''idle''" "ex_account ''idle''" ex_env]
  by (simp add: ex_defs GetCloudaccount_def PerformSync_def StartSyncCloudProviderInfoTask_def
      markStartSync_def save_account_def save_provider_def sync_status_defs Let_def)

text \<open>
  C10. A cloudprovider can be deleted only when it is disabled and sync-idle:
  \<open>ValidateDeleteCondition\<close> answers an InvalidStatus error when the provider is enabled,
  an InvalidStatus error when its sync status is not idle, and only for a disabled, idle
  provider the answer is that of the base check.
\<close>

theorem C10_validate_delete_condition:
  "(cp_Enabled self \<longrightarrow>
      SCloudprovider_ValidateDeleteCondition base self =
        Some (InvalidStatusError ''provider is enabled'')) \<and>
   (cp_SyncStatus self \<noteq> CLOUD_PROVIDER_SYNC_STATUS_IDLE \<longrightarrow>
      (\<exists>msg. SCloudprovider_ValidateDeleteCondition base self = Some (InvalidStatusError msg))) \<and>
   (\<not> cp_Enabled self \<and> cp_SyncStatus self = CLOUD_PROVIDER_SYNC_STATUS_IDLE \<longrightarrow>
      SCloudprovider_ValidateDeleteCondition base self = base self) \<and>
   (SCloudprovider_ValidateDeleteCondition base self = None \<longrightarrow>
      \<not> cp_Enabled self \<and> cp_SyncStatus self = CLOUD_PROVIDER_SYNC_STATUS_IDLE)"
  by (simp add: SCloudprovider_ValidateDeleteCondition_def)

theorem C10_witness:
  "SCloudprovider_ValidateDeleteCondition (\<lambda>p. None) (ex_provider ''idle'') =
     Some (InvalidStatusError ''provider is enabled'') \<and>
   (\<exists>msg. SCloudprovider_ValidateDeleteCondition (\<lambda>p. None)
      ((ex_provider ''syncing'')\<lparr>cp_Enabled := False\<rparr>) = Some (InvalidStatusError msg)) \<and>
   SCloudprovider_ValidateDeleteCondition (\<lambda>p. None)
      ((ex_provider ''idle'')\<lparr>cp_Enabled := False\<rparr>) = None"
  using C10_validate_delete_condition [of "ex_provider ''idle''" "\<lambda>p. None"]
    C10_validate_delete_condition [of "(ex_provider ''syncing'')\<lparr>cp_Enabled := False\<rparr>" "\<lambda>p. None"]
    C10_validate_delete_condition [of "(ex_provider ''idle'')\<lparr>cp_Enabled := False\<rparr>" "\<lambda>p. None"]
  by (simp add: ex_provider_def sync_status_defs)

end
